theory Spec2Isabelle
  imports Main "HOL-Library.Sublist"
begin

section \<open>Go strings\<close>

text \<open>
  A Go string is a sequence of bytes; \<open>len\<close> counts bytes and \<open>s[:n]\<close> slices bytes.
  It is modelled as \<open>string\<close> (a list of 8-bit \<open>char\<close>), so \<open>length\<close> is \<open>len\<close> and
  \<open>take n\<close> is \<open>s[:n]\<close> for \<open>n \<le> len(s)\<close>.
\<close>

text \<open>\<open>strings.Split(s, sep)\<close> for a one-byte separator: the segments between separators;
  an input without separator (also the empty one) gives one segment.\<close>

fun strings_Split :: "string \<Rightarrow> char \<Rightarrow> string list" where
  "strings_Split [] sep = [[]]"
| "strings_Split (c # cs) sep =
     (if c = sep then [] # strings_Split cs sep
      else (case strings_Split cs sep of
              [] \<Rightarrow> [[c]]
            | seg # segs \<Rightarrow> (c # seg) # segs))"

text \<open>\<open>strings.Join(elems, sep)\<close>.\<close>

fun strings_Join :: "string list \<Rightarrow> string \<Rightarrow> string" where
  "strings_Join [] sep = []"
| "strings_Join [e] sep = e"
| "strings_Join (e # e' # es) sep = e @ sep @ strings_Join (e' # es) sep"

text \<open>\<open>strings.HasPrefix(s, prefix)\<close>.\<close>

definition strings_HasPrefix :: "string \<Rightarrow> string \<Rightarrow> bool" where
  "strings_HasPrefix s p = (length p \<le> length s \<and> take (length p) s = p)"

text \<open>
  \<open>strings.TrimSpace\<close> removes leading and trailing white space as defined by Unicode
  (\<open>unicode.IsSpace\<close>): the code points U+0009..U+000D, U+0020, U+0085, U+00A0, U+1680,
  U+2000..U+200A, U+2028, U+2029, U+202F, U+205F and U+3000. On the bytes of the string
  these are the following UTF-8 encodings; a byte sequence that is not one of them decodes
  to a rune that is not a space (an invalid byte decodes to U+FFFD of width one).
\<close>

definition space_encodings :: "string list" where
  "space_encodings =
    [[CHR 0x09], [CHR 0x0A], [CHR 0x0B], [CHR 0x0C], [CHR 0x0D], [CHR 0x20],
     [CHR 0xC2, CHR 0x85], [CHR 0xC2, CHR 0xA0],
     [CHR 0xE1, CHR 0x9A, CHR 0x80],
     [CHR 0xE2, CHR 0x80, CHR 0x80], [CHR 0xE2, CHR 0x80, CHR 0x81],
     [CHR 0xE2, CHR 0x80, CHR 0x82], [CHR 0xE2, CHR 0x80, CHR 0x83],
     [CHR 0xE2, CHR 0x80, CHR 0x84], [CHR 0xE2, CHR 0x80, CHR 0x85],
     [CHR 0xE2, CHR 0x80, CHR 0x86], [CHR 0xE2, CHR 0x80, CHR 0x87],
     [CHR 0xE2, CHR 0x80, CHR 0x88], [CHR 0xE2, CHR 0x80, CHR 0x89],
     [CHR 0xE2, CHR 0x80, CHR 0x8A],
     [CHR 0xE2, CHR 0x80, CHR 0xA8], [CHR 0xE2, CHR 0x80, CHR 0xA9],
     [CHR 0xE2, CHR 0x80, CHR 0xAF],
     [CHR 0xE2, CHR 0x81, CHR 0x9F],
     [CHR 0xE3, CHR 0x80, CHR 0x80]]"

text \<open>The width in bytes of the space rune the string starts with (ends with), 0 when the
  first (last) rune is not a space or the string is empty.\<close>

definition leading_space :: "string \<Rightarrow> nat" where
  "leading_space s =
     (case find (\<lambda>q. prefix q s) space_encodings of None \<Rightarrow> 0 | Some q \<Rightarrow> length q)"

definition trailing_space :: "string \<Rightarrow> nat" where
  "trailing_space s =
     (case find (\<lambda>q. suffix q s) space_encodings of None \<Rightarrow> 0 | Some q \<Rightarrow> length q)"

lemma find_space_encodings_pos:
  "find P space_encodings = Some q \<Longrightarrow> 0 < length q"
proof -
  assume "find P space_encodings = Some q"
  then have "q \<in> set space_encodings"
    by (auto simp: find_Some_iff)
  then show ?thesis
    by (auto simp: space_encodings_def)
qed

lemma leading_space_le: "leading_space s \<le> length s"
  by (auto simp: leading_space_def find_Some_iff prefix_length_le split: option.splits)

lemma trailing_space_le: "trailing_space s \<le> length s"
  by (auto simp: trailing_space_def find_Some_iff suffix_length_le split: option.splits)

function TrimLeftSpace :: "string \<Rightarrow> string" where
  "TrimLeftSpace s =
     (if leading_space s = 0 then s else TrimLeftSpace (drop (leading_space s) s))"
  by pat_completeness auto
termination
proof (relation "measure length")
  show "wf (measure length)" by simp
next
  fix s :: string
  assume "leading_space s \<noteq> 0"
  moreover have "leading_space s \<le> length s" by (rule leading_space_le)
  ultimately show "(drop (leading_space s) s, s) \<in> measure length"
    by simp
qed

function TrimRightSpace :: "string \<Rightarrow> string" where
  "TrimRightSpace s =
     (if trailing_space s = 0 then s
      else TrimRightSpace (take (length s - trailing_space s) s))"
  by pat_completeness auto
termination
proof (relation "measure length")
  show "wf (measure length)" by simp
next
  fix s :: string
  assume "trailing_space s \<noteq> 0"
  moreover have "trailing_space s \<le> length s" by (rule trailing_space_le)
  ultimately show "(take (length s - trailing_space s) s, s) \<in> measure length"
    by simp
qed

definition strings_TrimSpace :: "string \<Rightarrow> string" where
  "strings_TrimSpace s = TrimRightSpace (TrimLeftSpace s)"

section \<open>Git state detection\<close>

text \<open>\<open>GitStateType\<close> is an \<open>int\<close> with four named constants (\<open>iota\<close>).\<close>

type_synonym GitStateType = int

definition StateNormal :: GitStateType where "StateNormal = 0"
definition StateMerge :: GitStateType where "StateMerge = 1"
definition StateRebase :: GitStateType where "StateRebase = 2"
definition StateCherryPick :: GitStateType where "StateCherryPick = 3"

record GitState =
  Type :: GitStateType
  OriginalMessage :: string
  ConflictMode :: bool

text \<open>
  \<open>filterCommentLines\<close>: the loop appends to \<open>filtered\<close> every line whose trimmed form
  neither starts with \<open>#\<close> nor is empty; the line itself is appended, not its trimmed form.
\<close>

definition keep_line :: "string list \<Rightarrow> string \<Rightarrow> string list" where
  "keep_line filtered line =
     (let trimmed = strings_TrimSpace line in
      if \<not> strings_HasPrefix trimmed ''#'' \<and> trimmed \<noteq> [] then filtered @ [line]
      else filtered)"

definition filterCommentLines :: "string \<Rightarrow> string" where
  "filterCommentLines message =
     (let lines = strings_Split message CHR ''\<newline>'';
          filtered = foldl keep_line [] lines
      in strings_Join filtered ''\<newline>'')"


subsection \<open>The file system\<close>

text \<open>
  What \<open>os.Stat\<close> and \<open>os.ReadFile\<close> see at a path: nothing (\<open>ENOENT\<close>, the error that
  \<open>os.IsNotExist\<close> accepts), a path whose inspection fails for another reason (no
  permission, or \<open>ENOTDIR\<close> for a path that leads through something that is not a
  directory), a regular file (with its content when it can be read), or a directory.
  \<open>os.ReadFile\<close> of a directory or of a missing entry is an error.
\<close>

datatype fs_node =
    NoEntry
  | Inaccessible
  | RegularFile "string option"
  | Directory

type_synonym filesystem = "string \<Rightarrow> fs_node"

datatype os_error = ErrNotExist | ErrOther

record FileInfo =
  IsDir :: bool

definition os_Stat :: "filesystem \<Rightarrow> string \<Rightarrow> os_error + FileInfo" where
  "os_Stat fs p =
     (case fs p of
        NoEntry \<Rightarrow> Inl ErrNotExist
      | Inaccessible \<Rightarrow> Inl ErrOther
      | RegularFile c \<Rightarrow> Inr \<lparr>IsDir = False\<rparr>
      | Directory \<Rightarrow> Inr \<lparr>IsDir = True\<rparr>)"

definition os_ReadFile :: "filesystem \<Rightarrow> string \<Rightarrow> os_error + string" where
  "os_ReadFile fs p =
     (case fs p of
        NoEntry \<Rightarrow> Inl ErrNotExist
      | Inaccessible \<Rightarrow> Inl ErrOther
      | RegularFile None \<Rightarrow> Inl ErrOther
      | RegularFile (Some c) \<Rightarrow> Inr c
      | Directory \<Rightarrow> Inl ErrOther)"

text \<open>\<open>os.IsNotExist(err)\<close> and \<open>err == nil\<close> on the result of a call.\<close>

definition os_IsNotExist :: "os_error + 'a \<Rightarrow> bool" where
  "os_IsNotExist r = (case r of Inl ErrNotExist \<Rightarrow> True | _ \<Rightarrow> False)"

definition err_nil :: "os_error + 'a \<Rightarrow> bool" where
  "err_nil r = (case r of Inr _ \<Rightarrow> True | Inl _ \<Rightarrow> False)"

text \<open>\<open>err == nil && info.IsDir()\<close>.\<close>

definition ok_IsDir :: "os_error + FileInfo \<Rightarrow> bool" where
  "ok_IsDir r = (case r of Inr info \<Rightarrow> IsDir info | Inl _ \<Rightarrow> False)"

text \<open>\<open>filepath.Join\<close> of two elements: empty elements are ignored. The lexical cleaning
  of the result (\<open>filepath.Clean\<close>) is not modelled: the file system is indexed by the
  joined path.\<close>

definition filepath_Join :: "string \<Rightarrow> string \<Rightarrow> string" where
  "filepath_Join a b = (if a = [] then b else if b = [] then a else a @ ''/'' @ b)"

text \<open>The system calls a run makes, in order.\<close>

datatype fs_op = Stat string | ReadFile string

datatype detect_error = NotAGitRepository string

subsection \<open>DetectGitState\<close>

text \<open>The message of an in-progress merge or cherry-pick, read from \<open>msgPath\<close>; a failed
  read leaves \<open>OriginalMessage\<close> as it is.\<close>

definition with_commit_message :: "filesystem \<Rightarrow> string \<Rightarrow> GitState \<Rightarrow> GitState" where
  "with_commit_message fs msgPath state =
     (case os_ReadFile fs msgPath of
        Inr content \<Rightarrow>
          state\<lparr>OriginalMessage := filterCommentLines (strings_TrimSpace content)\<rparr>
      | Inl e \<Rightarrow> state)"

definition with_head_name :: "filesystem \<Rightarrow> string \<Rightarrow> GitState \<Rightarrow> GitState" where
  "with_head_name fs headNamePath state =
     (case os_ReadFile fs headNamePath of
        Inr content \<Rightarrow>
          state\<lparr>OriginalMessage := ''Rebase branch: '' @ strings_TrimSpace content\<rparr>
      | Inl e \<Rightarrow> state)"

definition DetectGitState ::
  "filesystem \<Rightarrow> string \<Rightarrow> (detect_error + GitState) \<times> fs_op list" where
  "DetectGitState fs repoRoot =
     (let gitDir = filepath_Join repoRoot ''.git'' in
      if os_IsNotExist (os_Stat fs gitDir)
      then (Inl (NotAGitRepository repoRoot), [Stat gitDir])
      else
        let state = \<lparr>Type = StateNormal, OriginalMessage = [], ConflictMode = False\<rparr>;
            mergeHeadPath = filepath_Join gitDir ''MERGE_HEAD''
        in
        if err_nil (os_Stat fs mergeHeadPath) then
          let state = state\<lparr>Type := StateMerge, ConflictMode := True\<rparr>;
              mergeMsgPath = filepath_Join gitDir ''MERGE_MSG''
          in (Inr (with_commit_message fs mergeMsgPath state),
              [Stat gitDir, Stat mergeHeadPath, ReadFile mergeMsgPath])
        else
          let cherryPickHeadPath = filepath_Join gitDir ''CHERRY_PICK_HEAD'' in
          if err_nil (os_Stat fs cherryPickHeadPath) then
            let state = state\<lparr>Type := StateCherryPick, ConflictMode := True\<rparr>;
                commitEditMsgPath = filepath_Join gitDir ''COMMIT_EDITMSG''
            in (Inr (with_commit_message fs commitEditMsgPath state),
                [Stat gitDir, Stat mergeHeadPath, Stat cherryPickHeadPath,
                 ReadFile commitEditMsgPath])
          else
            let rebaseMergePath = filepath_Join gitDir ''rebase-merge'';
                rebaseApplyPath = filepath_Join gitDir ''rebase-apply''
            in
            if ok_IsDir (os_Stat fs rebaseMergePath) then
              let state = state\<lparr>Type := StateRebase, ConflictMode := True\<rparr>;
                  headNamePath = filepath_Join rebaseMergePath ''head-name''
              in (Inr (with_head_name fs headNamePath state),
                  [Stat gitDir, Stat mergeHeadPath, Stat cherryPickHeadPath,
                   Stat rebaseMergePath, ReadFile headNamePath])
            else if ok_IsDir (os_Stat fs rebaseApplyPath) then
              let state = state\<lparr>Type := StateRebase, ConflictMode := True\<rparr>;
                  headNamePath = filepath_Join rebaseApplyPath ''head-name''
              in (Inr (with_head_name fs headNamePath state),
                  [Stat gitDir, Stat mergeHeadPath, Stat cherryPickHeadPath,
                   Stat rebaseMergePath, Stat rebaseApplyPath, ReadFile headNamePath])
            else
              (Inr state,
               [Stat gitDir, Stat mergeHeadPath, Stat cherryPickHeadPath,
                Stat rebaseMergePath, Stat rebaseApplyPath]))"


subsection \<open>Concrete repositories\<close>

text \<open>A repository at \<open>/r\<close> in which a merge is in progress and a \<open>rebase-merge\<close>
  directory is present as well; and a directory \<open>/q\<close> that is no repository.\<close>

definition fs_merge_and_rebase :: filesystem where
  "fs_merge_and_rebase p =
     (if p = ''/r/.git'' then Directory
      else if p = ''/r/.git/MERGE_HEAD'' then RegularFile (Some ''abc123\<newline>'')
      else if p = ''/r/.git/MERGE_MSG''
        then RegularFile (Some ''Merge branch x\<newline># Conflicts:\<newline>'')
      else if p = ''/r/.git/rebase-merge'' then Directory
      else if p = ''/q'' then Directory
      else NoEntry)"

text \<open>A root that is a regular file: every path under it fails with \<open>ENOTDIR\<close>.\<close>

definition fs_root_is_file :: filesystem where
  "fs_root_is_file p =
     (if p = ''/etc/hostname'' then RegularFile (Some ''host\<newline>'')
      else if prefix ''/etc/hostname/'' p then Inaccessible
      else if p = ''/etc'' then Directory
      else NoEntry)"

subsection \<open>Properties of white-space trimming\<close>

declare TrimLeftSpace.simps [simp del] TrimRightSpace.simps [simp del]

lemma HasPrefix_hash: "strings_HasPrefix s ''#'' \<longleftrightarrow> (\<exists>r. s = CHR ''#'' # r)"
  by (cases s) (auto simp: strings_HasPrefix_def)

lemma hash_not_space: "q \<in> set space_encodings \<Longrightarrow> q \<noteq> CHR ''#'' # r"
  by (auto simp: space_encodings_def)

lemma leading_space_hash: "leading_space (CHR ''#'' # r) = 0"
  by (simp add: leading_space_def space_encodings_def)

lemma TrimLeftSpace_hash: "TrimLeftSpace (CHR ''#'' # r) = CHR ''#'' # r"
  by (subst TrimLeftSpace.simps) (simp add: leading_space_hash)

lemma trailing_space_cases:
  "trailing_space s = 0 \<or>
   (\<exists>q \<in> set space_encodings. suffix q s \<and> trailing_space s = length q)"
  by (auto simp: trailing_space_def find_Some_iff split: option.splits)

text \<open>A text of white space only: a sequence of space runes.\<close>

inductive white_space :: "string \<Rightarrow> bool" where
  empty: "white_space []"
| rune: "q \<in> set space_encodings \<Longrightarrow> white_space s \<Longrightarrow> white_space (q @ s)"

lemma white_space_append: "white_space a \<Longrightarrow> white_space b \<Longrightarrow> white_space (a @ b)"
  by (induction a rule: white_space.induct) (auto intro: white_space.intros)

lemma white_space_encoding: "q \<in> set space_encodings \<Longrightarrow> white_space q"
  using white_space.rune [OF _ white_space.empty] by simp

lemma leading_space_cases:
  "leading_space s = 0 \<or>
   (\<exists>q \<in> set space_encodings. prefix q s \<and> leading_space s = length q)"
  by (auto simp: leading_space_def find_Some_iff split: option.splits)

lemma leading_space_0_iff:
  "leading_space s = 0 \<longleftrightarrow> (\<forall>q \<in> set space_encodings. \<not> prefix q s)"
proof
  assume z: "leading_space s = 0"
  show "\<forall>q \<in> set space_encodings. \<not> prefix q s"
  proof (rule ccontr)
    assume "\<not> (\<forall>q \<in> set space_encodings. \<not> prefix q s)"
    then obtain q where "q \<in> set space_encodings" "prefix q s" by blast
    then obtain q' where f: "find (\<lambda>q. prefix q s) space_encodings = Some q'"
      by (cases "find (\<lambda>q. prefix q s) space_encodings") (auto simp: find_None_iff)
    with z show False
      using find_space_encodings_pos [OF f] by (simp add: leading_space_def)
  qed
next
  assume "\<forall>q \<in> set space_encodings. \<not> prefix q s"
  then have "find (\<lambda>q. prefix q s) space_encodings = None"
    by (simp add: find_None_iff)
  then show "leading_space s = 0" by (simp add: leading_space_def)
qed

lemma TrimLeftSpace_split:
  "\<exists>l. white_space l \<and> s = l @ TrimLeftSpace s \<and> leading_space (TrimLeftSpace s) = 0"
proof (induction s rule: TrimLeftSpace.induct)
  case (1 s)
  show ?case
  proof (cases "leading_space s = 0")
    case True
    then have "TrimLeftSpace s = s" by (subst TrimLeftSpace.simps) simp
    with True show ?thesis by (auto intro: exI [of _ "[]"] white_space.empty)
  next
    case False
    then obtain q where q: "q \<in> set space_encodings" "prefix q s" "leading_space s = length q"
      using leading_space_cases [of s] by auto
    from "1.IH" [OF False] obtain l where l: "white_space l"
      "drop (leading_space s) s = l @ TrimLeftSpace (drop (leading_space s) s)"
      "leading_space (TrimLeftSpace (drop (leading_space s) s)) = 0" by blast
    have t: "TrimLeftSpace s = TrimLeftSpace (drop (leading_space s) s)"
      using False by (subst TrimLeftSpace.simps) simp
    from q(2,3) have "s = q @ drop (leading_space s) s"
      by (auto simp: prefix_def)
    with l(2) t have "s = (q @ l) @ TrimLeftSpace s" by (metis append_assoc)
    moreover have "white_space (q @ l)" using q(1) l(1) by (rule white_space.rune)
    ultimately show ?thesis using l(3) t by metis
  qed
qed

lemma TrimRightSpace_split:
  "\<exists>r. white_space r \<and> s = TrimRightSpace s @ r \<and> trailing_space (TrimRightSpace s) = 0"
proof (induction s rule: TrimRightSpace.induct)
  case (1 s)
  show ?case
  proof (cases "trailing_space s = 0")
    case True
    then have "TrimRightSpace s = s" by (subst TrimRightSpace.simps) simp
    with True show ?thesis by (auto intro: exI [of _ "[]"] white_space.empty)
  next
    case False
    then obtain q where q: "q \<in> set space_encodings" "suffix q s" "trailing_space s = length q"
      using trailing_space_cases [of s] by auto
    let ?s' = "take (length s - trailing_space s) s"
    from "1.IH" [OF False] obtain r where r: "white_space r"
      "?s' = TrimRightSpace ?s' @ r" "trailing_space (TrimRightSpace ?s') = 0" by blast
    have t: "TrimRightSpace s = TrimRightSpace ?s'"
      using False by (subst TrimRightSpace.simps) simp
    from q(2,3) have "s = ?s' @ q"
      by (auto simp: suffix_def)
    with r(2) t have "s = TrimRightSpace s @ (r @ q)" by (metis append_assoc)
    moreover have "white_space (r @ q)"
      using r(1) white_space_encoding [OF q(1)] by (rule white_space_append)
    ultimately show ?thesis using r(3) t by metis
  qed
qed

lemma leading_space_prefix:
  "prefix p s \<Longrightarrow> leading_space s = 0 \<Longrightarrow> leading_space p = 0"
  unfolding leading_space_0_iff by (meson prefix_order.trans)

text \<open>\<open>strings.TrimSpace\<close> cuts a run of white space off each end, and what it returns
  neither starts nor ends with a space rune.\<close>

lemma TrimSpace_parts:
  "\<exists>l r. white_space l \<and> white_space r \<and> s = l @ strings_TrimSpace s @ r \<and>
     leading_space (strings_TrimSpace s) = 0 \<and> trailing_space (strings_TrimSpace s) = 0"
proof -
  obtain l where l: "white_space l" "s = l @ TrimLeftSpace s"
    "leading_space (TrimLeftSpace s) = 0"
    using TrimLeftSpace_split [of s] by blast
  obtain r where r: "white_space r" "TrimLeftSpace s = TrimRightSpace (TrimLeftSpace s) @ r"
    "trailing_space (TrimRightSpace (TrimLeftSpace s)) = 0"
    using TrimRightSpace_split [of "TrimLeftSpace s"] by blast
  have "prefix (TrimRightSpace (TrimLeftSpace s)) (TrimLeftSpace s)"
    using r(2) by (metis prefixI)
  then have "leading_space (TrimRightSpace (TrimLeftSpace s)) = 0"
    using l(3) by (rule leading_space_prefix)
  moreover have "s = l @ TrimRightSpace (TrimLeftSpace s) @ r"
    using l(2) r(2) by metis
  ultimately show ?thesis
    unfolding strings_TrimSpace_def using l(1) r(1,3) by blast
qed


text \<open>Trimming on the right never eats a leading \<open>#\<close>: no space encoding contains it.\<close>

lemma TrimRightSpace_hash:
  "strings_HasPrefix s ''#'' \<Longrightarrow> strings_HasPrefix (TrimRightSpace s) ''#''"
proof (induction s rule: TrimRightSpace.induct)
  case (1 s)
  from "1.prems" obtain r where s: "s = CHR ''#'' # r"
    by (auto simp: HasPrefix_hash)
  show ?case
  proof (cases "trailing_space s = 0")
    case True
    then show ?thesis using "1.prems" by (subst TrimRightSpace.simps) simp
  next
    case False
    then obtain q where q: "q \<in> set space_encodings" "suffix q s" "trailing_space s = length q"
      using trailing_space_cases [of s] by auto
    have "length q \<noteq> length s"
    proof
      assume "length q = length s"
      with q(2) have "q = s" by (auto simp: suffix_def)
      with q(1) s show False using hash_not_space by blast
    qed
    moreover have "length q \<le> length s" using q(2) by (rule suffix_length_le)
    ultimately have "length q < length s" by simp
    then have "take (length s - trailing_space s) s
        = CHR ''#'' # take (length s - trailing_space s - 1) r"
      using s q(3) by (simp add: take_Cons')
    then have "strings_HasPrefix (take (length s - trailing_space s) s) ''#''"
      by (simp add: HasPrefix_hash)
    from "1.IH" [OF False this] show ?thesis
      using False by (subst TrimRightSpace.simps) simp
  qed
qed

lemma TrimSpace_hash:
  "strings_HasPrefix s ''#'' \<Longrightarrow> strings_HasPrefix (strings_TrimSpace s) ''#''"
proof -
  assume h: "strings_HasPrefix s ''#''"
  then obtain r where "s = CHR ''#'' # r" by (auto simp: HasPrefix_hash)
  then have "TrimLeftSpace s = s" by (simp add: TrimLeftSpace_hash)
  with h show ?thesis
    by (simp add: strings_TrimSpace_def TrimRightSpace_hash)
qed

lemma leading_space_Nil: "leading_space [] = 0"
  by (simp add: leading_space_def space_encodings_def)

lemma trailing_space_Nil: "trailing_space [] = 0"
  by (simp add: trailing_space_def space_encodings_def)

lemma TrimSpace_Nil: "strings_TrimSpace [] = []"
proof -
  have "TrimLeftSpace [] = []"
    by (subst TrimLeftSpace.simps) (simp add: leading_space_Nil)
  moreover have "TrimRightSpace [] = []"
    by (subst TrimRightSpace.simps) (simp add: trailing_space_Nil)
  ultimately show ?thesis by (simp add: strings_TrimSpace_def)
qed

subsection \<open>Comment stripping\<close>

text \<open>The condition under which the loop of \<open>filterCommentLines\<close> appends a line.\<close>

definition line_kept :: "string \<Rightarrow> bool" where
  "line_kept line =
     (let trimmed = strings_TrimSpace line in
      \<not> strings_HasPrefix trimmed ''#'' \<and> trimmed \<noteq> [])"

text \<open>The stripping as the specification words it: a line is removed when it is empty or
  starts with \<open>#\<close>, the remaining lines are joined with newlines.\<close>

definition filterCommentLines_spec :: "string \<Rightarrow> string" where
  "filterCommentLines_spec message =
     strings_Join
       (filter (\<lambda>line. \<not> (line = [] \<or> strings_HasPrefix line ''#''))
          (strings_Split message CHR ''\<newline>''))
       ''\<newline>''"

lemma foldl_keep_line: "foldl keep_line acc ls = acc @ filter line_kept ls"
  by (induction ls arbitrary: acc) (simp_all add: keep_line_def line_kept_def Let_def)

lemma filterCommentLines_example:
  "filterCommentLines ''feat: x\<newline># comment\<newline>\<newline>body'' = ''feat: x\<newline>body''"
  by code_simp

text \<open>
  C6, as stated, fails: a line of white space only, and a \<open>#\<close> line that is indented, are
  neither empty nor do they start with \<open>#\<close>, and the code removes them all the same,
  because it tests the trimmed line.
\<close>

theorem filterCommentLines_spec_counterexample:
  "filterCommentLines ''a\<newline> \<newline>b'' = ''a\<newline>b'' \<and>
   filterCommentLines_spec ''a\<newline> \<newline>b'' = ''a\<newline> \<newline>b'' \<and>
   filterCommentLines ''a\<newline>  # c\<newline>b'' = ''a\<newline>b'' \<and>
   filterCommentLines_spec ''a\<newline>  # c\<newline>b'' = ''a\<newline>  # c\<newline>b''"
  by code_simp

text \<open>
  C6 (amended): \<open>filterCommentLines\<close> removes every line whose white-space-trimmed form is
  empty or starts with \<open>#\<close> (which includes every line that itself is empty or starts with
  \<open>#\<close>) and joins the remaining lines, untrimmed and in order, with newlines; the input
  \<open>"feat: x\n# comment\n\nbody"\<close> yields \<open>"feat: x\nbody"\<close>.
\<close>

theorem filterCommentLines_trimmed:
  "filterCommentLines message =
     strings_Join (filter line_kept (strings_Split message CHR ''\<newline>'')) ''\<newline>'' \<and>
   (\<forall>line. line_kept line \<longleftrightarrow>
      \<not> (strings_TrimSpace line = [] \<or> strings_HasPrefix (strings_TrimSpace line) ''#'')) \<and>
   (\<forall>line. line = [] \<or> strings_HasPrefix line ''#'' \<longrightarrow> \<not> line_kept line) \<and>
   filterCommentLines ''feat: x\<newline># comment\<newline>\<newline>body'' = ''feat: x\<newline>body''"
proof -
  have "filterCommentLines message =
     strings_Join (filter line_kept (strings_Split message CHR ''\<newline>'')) ''\<newline>''"
    by (simp add: filterCommentLines_def foldl_keep_line)
  moreover have "\<forall>line. line_kept line \<longleftrightarrow>
      \<not> (strings_TrimSpace line = [] \<or> strings_HasPrefix (strings_TrimSpace line) ''#'')"
    by (auto simp: line_kept_def Let_def)
  moreover have "\<forall>line. line = [] \<or> strings_HasPrefix line ''#'' \<longrightarrow> \<not> line_kept line"
    by (auto simp: line_kept_def Let_def TrimSpace_Nil TrimSpace_hash)
  ultimately show ?thesis
    using filterCommentLines_example by simp
qed

theorem filterCommentLines_trimmed_witness:
  "strings_HasPrefix ''# Conflicts:'' ''#'' \<and> \<not> line_kept ''# Conflicts:'' \<and>
   filterCommentLines ''Merge branch x\<newline># Conflicts:'' = ''Merge branch x''"
proof -
  have h: "strings_HasPrefix ''# Conflicts:'' ''#''"
    by (simp add: strings_HasPrefix_def)
  have "filterCommentLines ''Merge branch x\<newline># Conflicts:'' = ''Merge branch x''"
    by code_simp
  with h show ?thesis
    using filterCommentLines_trimmed [of "''Merge branch x\<newline># Conflicts:''"] by blast
qed

subsection \<open>Properties of DetectGitState\<close>

lemma with_commit_message_fields [simp]:
  "Type (with_commit_message fs p st) = Type st"
  "ConflictMode (with_commit_message fs p st) = ConflictMode st"
  by (simp_all add: with_commit_message_def split: sum.splits)

lemma with_head_name_fields [simp]:
  "Type (with_head_name fs p st) = Type st"
  "ConflictMode (with_head_name fs p st) = ConflictMode st"
  by (simp_all add: with_head_name_def split: sum.splits)

text \<open>
  When \<open>os.Stat\<close> of \<open>.git\<close> under the repository root fails with the error that
  \<open>os.IsNotExist\<close> accepts, \<open>DetectGitState\<close> returns the not-a-repository error after this
  one check, and it returns no state.
\<close>

lemma DetectGitState_missing_git_dir:
  "os_IsNotExist (os_Stat fs (filepath_Join repoRoot ''.git'')) \<Longrightarrow>
   DetectGitState fs repoRoot =
     (Inl (NotAGitRepository repoRoot), [Stat (filepath_Join repoRoot ''.git'')]) \<and>
   (\<forall>st. fst (DetectGitState fs repoRoot) \<noteq> Inr st)"
  by (simp add: DetectGitState_def)

lemma DetectGitState_missing_git_dir_example:
  "os_IsNotExist (os_Stat fs_merge_and_rebase (filepath_Join ''/q'' ''.git'')) \<and>
   fst (DetectGitState fs_merge_and_rebase ''/q'') = Inl (NotAGitRepository ''/q'')"
proof -
  have h: "os_IsNotExist (os_Stat fs_merge_and_rebase (filepath_Join ''/q'' ''.git''))"
    by code_simp
  from DetectGitState_missing_git_dir [OF h] h show ?thesis by simp
qed

text \<open>
  C8: a root under which there is no \<open>.git\<close> must give the not-a-repository error and
  never the Normal state. The code tests \<open>os.IsNotExist\<close> on the error of \<open>os.Stat\<close>, so it
  does so for a missing entry only. When the root is a regular file there is no \<open>.git\<close>
  under it either, but \<open>os.Stat\<close> fails because the root is not a directory, the test lets
  the run pass, every later check fails in the same way, and the run returns the Normal
  state and no error.
\<close>

theorem DetectGitState_root_is_file:
  "fs_root_is_file ''/etc/hostname'' = RegularFile (Some ''host\<newline>'') \<and>
   os_Stat fs_root_is_file (filepath_Join ''/etc/hostname'' ''.git'') = Inl ErrOther \<and>
   \<not> err_nil (os_Stat fs_root_is_file (filepath_Join ''/etc/hostname'' ''.git'')) \<and>
   DetectGitState fs_root_is_file ''/etc/hostname'' =
     (Inr \<lparr>Type = StateNormal, OriginalMessage = [], ConflictMode = False\<rparr>,
      [Stat ''/etc/hostname/.git'', Stat ''/etc/hostname/.git/MERGE_HEAD'',
       Stat ''/etc/hostname/.git/CHERRY_PICK_HEAD'', Stat ''/etc/hostname/.git/rebase-merge'',
       Stat ''/etc/hostname/.git/rebase-apply''])"
  by code_simp

text \<open>
  C7: in every state that \<open>DetectGitState\<close> returns, \<open>ConflictMode\<close> is true if and only
  if \<open>Type\<close> is not \<open>StateNormal\<close>.
\<close>

theorem DetectGitState_ConflictMode:
  "fst (DetectGitState fs repoRoot) = Inr st \<Longrightarrow>
   ConflictMode st \<longleftrightarrow> Type st \<noteq> StateNormal"
  by (auto simp: DetectGitState_def Let_def StateNormal_def StateMerge_def StateRebase_def
        StateCherryPick_def split: if_splits)

theorem DetectGitState_ConflictMode_witness:
  "fst (DetectGitState fs_merge_and_rebase ''/r'') =
     Inr \<lparr>Type = StateMerge, OriginalMessage = ''Merge branch x'', ConflictMode = True\<rparr> \<and>
   (ConflictMode \<lparr>Type = StateMerge, OriginalMessage = ''Merge branch x'', ConflictMode = True\<rparr>
     \<longleftrightarrow> Type \<lparr>Type = StateMerge, OriginalMessage = ''Merge branch x'', ConflictMode = True\<rparr>
          \<noteq> StateNormal)"
proof -
  have h: "fst (DetectGitState fs_merge_and_rebase ''/r'') =
     Inr \<lparr>Type = StateMerge, OriginalMessage = ''Merge branch x'', ConflictMode = True\<rparr>"
    by code_simp
  from DetectGitState_ConflictMode [OF h] h show ?thesis by blast
qed

text \<open>
  C5: when \<open>.git\<close> is there, \<open>DetectGitState\<close> returns a state, and it looks at
  \<open>MERGE_HEAD\<close>, then \<open>CHERRY_PICK_HEAD\<close>, then the directory \<open>rebase-merge\<close>, then the
  directory \<open>rebase-apply\<close>, in this order, and stops at the first that is there: the
  type of the state is that of the first match, and the \<open>os.Stat\<close> calls made are those up
  to the first match and no further. In particular, with both \<open>MERGE_HEAD\<close> and a
  \<open>rebase-merge\<close> directory the state is Merge, not Rebase.
\<close>

theorem DetectGitState_order:
  assumes "\<not> os_IsNotExist (os_Stat fs (filepath_Join repoRoot ''.git''))"
  shows "\<exists>st.
    fst (DetectGitState fs repoRoot) = Inr st \<and>
    (let gitDir = filepath_Join repoRoot ''.git'';
         mergeHead = err_nil (os_Stat fs (filepath_Join gitDir ''MERGE_HEAD''));
         cherryPickHead = err_nil (os_Stat fs (filepath_Join gitDir ''CHERRY_PICK_HEAD''));
         rebaseMerge = ok_IsDir (os_Stat fs (filepath_Join gitDir ''rebase-merge''));
         rebaseApply = ok_IsDir (os_Stat fs (filepath_Join gitDir ''rebase-apply''))
     in
       Type st =
         (if mergeHead then StateMerge
          else if cherryPickHead then StateCherryPick
          else if rebaseMerge then StateRebase
          else if rebaseApply then StateRebase
          else StateNormal) \<and>
       filter (\<lambda>op. case op of Stat p \<Rightarrow> True | ReadFile p \<Rightarrow> False)
           (snd (DetectGitState fs repoRoot)) =
         (if mergeHead then
            [Stat gitDir, Stat (filepath_Join gitDir ''MERGE_HEAD'')]
          else if cherryPickHead then
            [Stat gitDir, Stat (filepath_Join gitDir ''MERGE_HEAD''),
             Stat (filepath_Join gitDir ''CHERRY_PICK_HEAD'')]
          else if rebaseMerge then
            [Stat gitDir, Stat (filepath_Join gitDir ''MERGE_HEAD''),
             Stat (filepath_Join gitDir ''CHERRY_PICK_HEAD''),
             Stat (filepath_Join gitDir ''rebase-merge'')]
          else
            [Stat gitDir, Stat (filepath_Join gitDir ''MERGE_HEAD''),
             Stat (filepath_Join gitDir ''CHERRY_PICK_HEAD''),
             Stat (filepath_Join gitDir ''rebase-merge''),
             Stat (filepath_Join gitDir ''rebase-apply'')]) \<and>
       (mergeHead \<and> rebaseMerge \<longrightarrow> Type st = StateMerge \<and> Type st \<noteq> StateRebase))"
  using assms
  by (simp add: DetectGitState_def Let_def StateMerge_def StateRebase_def)

theorem DetectGitState_order_witness:
  "\<not> os_IsNotExist (os_Stat fs_merge_and_rebase (filepath_Join ''/r'' ''.git'')) \<and>
   err_nil (os_Stat fs_merge_and_rebase ''/r/.git/MERGE_HEAD'') \<and>
   ok_IsDir (os_Stat fs_merge_and_rebase ''/r/.git/rebase-merge'') \<and>
   (\<exists>st. fst (DetectGitState fs_merge_and_rebase ''/r'') = Inr st \<and> Type st = StateMerge) \<and>
   snd (DetectGitState fs_merge_and_rebase ''/r'') =
     [Stat ''/r/.git'', Stat ''/r/.git/MERGE_HEAD'', ReadFile ''/r/.git/MERGE_MSG'']"
proof -
  have h: "\<not> os_IsNotExist (os_Stat fs_merge_and_rebase (filepath_Join ''/r'' ''.git''))"
    by code_simp
  have m: "err_nil (os_Stat fs_merge_and_rebase ''/r/.git/MERGE_HEAD'')"
    by code_simp
  have r: "ok_IsDir (os_Stat fs_merge_and_rebase ''/r/.git/rebase-merge'')"
    by code_simp
  have j: "filepath_Join ''/r'' ''.git'' = ''/r/.git''"
          "filepath_Join ''/r/.git'' ''MERGE_HEAD'' = ''/r/.git/MERGE_HEAD''"
          "filepath_Join ''/r/.git'' ''rebase-merge'' = ''/r/.git/rebase-merge''"
    by (simp_all add: filepath_Join_def)
  have l: "snd (DetectGitState fs_merge_and_rebase ''/r'') =
     [Stat ''/r/.git'', Stat ''/r/.git/MERGE_HEAD'', ReadFile ''/r/.git/MERGE_MSG'']"
    by code_simp
  from DetectGitState_order [OF h] show ?thesis
    using h m r l by (auto simp: Let_def j)
qed



section \<open>The AI client\<close>

subsection \<open>buildPrompt\<close>

text \<open>\<open>strings.Builder\<close>: the builder is the text written so far, \<open>WriteString\<close> appends
  to it, \<open>sb.String()\<close> is the text.\<close>

definition WriteString :: "string \<Rightarrow> string \<Rightarrow> string" where
  "WriteString sb s = sb @ s"

text \<open>The three cases of the \<open>switch\<close> on \<open>gitState.Type\<close>. The line on the original
  message is written only when the message is not empty.\<close>

definition write_merge_context :: "string \<Rightarrow> GitState \<Rightarrow> string" where
  "write_merge_context sb gitState =
     (let sb = WriteString sb ''CONTEXT: You are completing a MERGE CONFLICT resolution.\<newline>'';
          sb = (if OriginalMessage gitState \<noteq> []
                then WriteString sb (''Original merge intent: '' @ [CHR 0x22] @ OriginalMessage gitState @ [CHR 0x22] @ ''\<newline>'')
                else sb)
      in foldl WriteString sb
        [''\<newline>IMPORTANT INSTRUCTIONS:\<newline>'',
         ''1. You MUST use the following EXACT format for the first line:\<newline>'',
         ''   <type>(merge): Merged <Source_Branch> into <Target_Branch>\<newline>'',
         ''2. Analyze the diff and choose the appropriate <type> based on the changes:\<newline>'',
         ''   - feat: if adding new features or capabilities\<newline>'',
         ''   - fix: if fixing bugs or issues\<newline>'',
         ''   - refactor: if restructuring code without changing functionality\<newline>'',
         ''   - chore: if updating dependencies, configs, or maintenance tasks\<newline>'',
         ''   - docs: if primarily documentation changes\<newline>'',
         ''3. Extract <Source_Branch> from the Original merge intent (e.g. 'Merge branch feature-x' -> feature-x).\<newline>'',
         ''4. If <Target_Branch> is unknown, use 'main' or infer from the diff/context.\<newline>'',
         ''5. After the first line, leave a blank line and then provide a detailed description of what code changes were merged.\<newline>'',
         ''6. Explain HOW conflicts were resolved if applicable.\<newline>'',
         ''7. Example First Line: feat(merge): Merged feature-auth into main\<newline>\<newline>''])"

definition write_rebase_context :: "string \<Rightarrow> GitState \<Rightarrow> string" where
  "write_rebase_context sb gitState =
     (let sb = WriteString sb ''CONTEXT: You are completing a REBASE conflict resolution.\<newline>'';
          sb = (if OriginalMessage gitState \<noteq> []
                then WriteString sb (''Rebase context: '' @ OriginalMessage gitState @ ''\<newline>'')
                else sb)
      in foldl WriteString sb
        [''\<newline>IMPORTANT INSTRUCTIONS:\<newline>'',
         ''1. You MUST use the following EXACT format for the first line:\<newline>'',
         ''   <type>(rebase): Rebased <Branch_Name> onto <Target_Branch>\<newline>'',
         ''2. Analyze the diff and choose the appropriate <type> based on the changes:\<newline>'',
         ''   - feat: if adding new features or capabilities\<newline>'',
         ''   - fix: if fixing bugs or issues\<newline>'',
         ''   - refactor: if restructuring code without changing functionality\<newline>'',
         ''   - chore: if updating dependencies, configs, or maintenance tasks\<newline>'',
         ''   - docs: if primarily documentation changes\<newline>'',
         ''3. Extract <Branch_Name> from the Rebase context if available, otherwise infer from diff.\<newline>'',
         ''4. If <Target_Branch> is unknown, use 'main' or infer from context.\<newline>'',
         ''5. After the first line, leave a blank line and then provide a detailed description of what code changes were rebased.\<newline>'',
         ''6. Explain HOW conflicts were resolved if applicable.\<newline>'',
         ''7. Example First Line: feat(rebase): Rebased feature-auth onto main\<newline>\<newline>''])"

definition write_cherry_pick_context :: "string \<Rightarrow> GitState \<Rightarrow> string" where
  "write_cherry_pick_context sb gitState =
     (let sb = WriteString sb ''CONTEXT: You are completing a CHERRY-PICK operation.\<newline>'';
          sb = (if OriginalMessage gitState \<noteq> []
                then WriteString sb (''Original commit: '' @ [CHR 0x22] @ OriginalMessage gitState @ [CHR 0x22] @ ''\<newline>'')
                else sb)
      in foldl WriteString sb
        [''\<newline>IMPORTANT INSTRUCTIONS:\<newline>'',
         ''1. You MUST use the following EXACT format for the first line:\<newline>'',
         ''   <type>(cherry-pick): Cherry-picked <Commit_Description> into <Target_Branch>\<newline>'',
         ''   '' @ [CHR 0xE2] @ [CHR 0x9A] @ [CHR 0xA0] @ [CHR 0xEF] @ [CHR 0xB8] @ [CHR 0x8F] @ ''  CRITICAL: The scope MUST be 'cherry-pick', NOT the original scope from the commit!\<newline>'',
         ''2. Analyze the diff and choose the appropriate <type> based on the changes:\<newline>'',
         ''   - feat: if adding new features or capabilities\<newline>'',
         ''   - fix: if fixing bugs or issues\<newline>'',
         ''   - refactor: if restructuring code without changing functionality\<newline>'',
         ''   - chore: if updating dependencies, configs, or maintenance tasks\<newline>'',
         ''   - docs: if primarily documentation changes\<newline>'',
         ''3. Extract <Commit_Description> from the Original commit message if available.\<newline>'',
         ''4. If <Target_Branch> is unknown, use 'main' or infer from context.\<newline>'',
         ''5. After the first line, leave a blank line and then provide a detailed description of what was cherry-picked.\<newline>'',
         ''6. Explain HOW conflicts were resolved and what adaptations were made if applicable.\<newline>'',
         ''7. CORRECT Example: docs(cherry-pick): Cherry-picked feature entries update into main\<newline>'',
         ''8. WRONG Example: docs(file): updated feature entries (missing cherry-pick scope!)\<newline>\<newline>''])"

text \<open>The block written when \<open>gitState != nil && gitState.Type != git.StateNormal\<close>;
  a type that is none of the three cases writes the two frame lines only.\<close>

definition write_state_context :: "string \<Rightarrow> GitState \<Rightarrow> string" where
  "write_state_context sb gitState =
     (let sb = WriteString sb ''=== SPECIAL GIT STATE CONTEXT ===\<newline>\<newline>'';
          sb = (if Type gitState = StateMerge then write_merge_context sb gitState
                else if Type gitState = StateRebase then write_rebase_context sb gitState
                else if Type gitState = StateCherryPick
                  then write_cherry_pick_context sb gitState
                else sb)
      in WriteString sb ''=================================\<newline>\<newline>'')"

definition write_instructions :: "string \<Rightarrow> string" where
  "write_instructions sb =
     foldl WriteString sb
       [''Analyze the following code diff.\<newline>\<newline>'',
       ''First, determine whether the diff represents a single logical change or multiple independent changes that should be split into smaller commits to follow clean code and best practices.\<newline>\<newline>'',
       ''If the diff should be split, briefly state that it can be broken down and list the suggested commit scopes or purposes (do not generate the commits yet).\<newline>\<newline>'',
       ''If the diff represents a single logical change, generate a single-line git commit message following the Conventional Commits specification.\<newline>\<newline>'',
       ''Format for commit message:\<newline><type>(<scope>): <description>\<newline>\<newline>'',
       ''Allowed types: feat, fix, docs, style, refactor, test, chore.\<newline>\<newline>'',
       ''IMPORTANT: Use past tense for the description (e.g., 'added feature' not 'add feature', 'fixed bug' not 'fix bug').\<newline>\<newline>'',
       ''Do not output anything other than the message or the split suggestion.\<newline>\<newline>'']"

text \<open>A nil \<open>*git.GitState\<close> is \<open>None\<close>.\<close>

definition buildPrompt :: "string \<Rightarrow> string \<Rightarrow> GitState option \<Rightarrow> string" where
  "buildPrompt diff rules gitState =
     (let sb = WriteString [] ''You are an expert DevOps engineer specialized in writing git commit messages.\<newline>\<newline>'';
          sb = (case gitState of
                  None \<Rightarrow> sb
                | Some st \<Rightarrow>
                    if Type st \<noteq> StateNormal then write_state_context sb st else sb);
          sb = write_instructions sb;
          sb = (if rules \<noteq> []
                then WriteString (WriteString (WriteString sb ''Team Rules:\<newline>'') rules) ''\<newline>\<newline>''
                else sb);
          sb = WriteString sb ''Diff:\<newline>'';
          sb = WriteString sb diff
      in sb)"


subsection \<open>Properties of buildPrompt\<close>

lemma foldl_WriteString: "foldl WriteString sb ss = sb @ concat ss"
  by (induction ss arbitrary: sb) (simp_all add: WriteString_def)

text \<open>The text each part of \<open>buildPrompt\<close> writes, read off an empty builder.\<close>

definition merge_context :: "GitState \<Rightarrow> string" where
  "merge_context st = write_merge_context [] st"

definition rebase_context :: "GitState \<Rightarrow> string" where
  "rebase_context st = write_rebase_context [] st"

definition cherry_pick_context :: "GitState \<Rightarrow> string" where
  "cherry_pick_context st = write_cherry_pick_context [] st"

definition special_context :: "GitState \<Rightarrow> string" where
  "special_context st = write_state_context [] st"

definition instructions :: string where
  "instructions = write_instructions []"

lemma write_merge_context_text:
  "write_merge_context sb st = sb @ merge_context st"
  unfolding merge_context_def
  by (simp only: write_merge_context_def Let_def foldl_WriteString WriteString_def
        append_assoc append_Nil if_distrib [of "\<lambda>x. x @ _"] if_distrib [of "\<lambda>x. _ @ x"])

lemma write_rebase_context_text:
  "write_rebase_context sb st = sb @ rebase_context st"
  unfolding rebase_context_def
  by (simp only: write_rebase_context_def Let_def foldl_WriteString WriteString_def
        append_assoc append_Nil if_distrib [of "\<lambda>x. x @ _"] if_distrib [of "\<lambda>x. _ @ x"])

lemma write_cherry_pick_context_text:
  "write_cherry_pick_context sb st = sb @ cherry_pick_context st"
  unfolding cherry_pick_context_def
  by (simp only: write_cherry_pick_context_def Let_def foldl_WriteString WriteString_def
        append_assoc append_Nil if_distrib [of "\<lambda>x. x @ _"] if_distrib [of "\<lambda>x. _ @ x"])

lemma write_state_context_text:
  "write_state_context sb st = sb @ special_context st"
  unfolding special_context_def write_state_context_def Let_def WriteString_def
  by (simp only: write_merge_context_text write_rebase_context_text
        write_cherry_pick_context_text append_assoc append_Nil
        if_distrib [of "\<lambda>x. x @ _"] if_distrib [of "\<lambda>x. _ @ x"])

lemma special_context_not_Nil: "special_context st \<noteq> []"
  by (simp add: special_context_def write_state_context_def Let_def WriteString_def)

lemma write_instructions_text: "write_instructions sb = sb @ instructions"
  by (simp only: instructions_def write_instructions_def foldl_WriteString append_Nil)

text \<open>The parts of a prompt: what is written for the state, and for the rules.\<close>

definition state_context :: "GitState option \<Rightarrow> string" where
  "state_context gitState =
     (case gitState of
        None \<Rightarrow> []
      | Some st \<Rightarrow> if Type st \<noteq> StateNormal then special_context st else [])"

definition team_rules :: "string \<Rightarrow> string" where
  "team_rules rules = (if rules \<noteq> [] then ''Team Rules:\<newline>'' @ rules @ ''\<newline>\<newline>'' else [])"

definition preamble :: string where
  "preamble = ''You are an expert DevOps engineer specialized in writing git commit messages.\<newline>\<newline>''"

lemma buildPrompt_blocks:
  "buildPrompt diff rules gitState =
     preamble @ state_context gitState @ instructions @ team_rules rules @
     ''Diff:\<newline>'' @ diff"
proof (cases gitState)
  case None
  then show ?thesis
    unfolding buildPrompt_def Let_def WriteString_def preamble_def state_context_def
      team_rules_def
    by (simp only: option.case write_instructions_text append_assoc append_Nil
        if_distrib [of "\<lambda>x. x @ _"] if_distrib [of "\<lambda>x. _ @ x"])
next
  case (Some st)
  then show ?thesis
    unfolding buildPrompt_def Let_def WriteString_def preamble_def state_context_def
      team_rules_def
    by (simp only: option.case write_instructions_text write_state_context_text
        append_assoc append_Nil
        if_distrib [of "\<lambda>x. x @ _"] if_distrib [of "\<lambda>x. _ @ x"])
qed


text \<open>
  C10: \<open>buildPrompt\<close> with a nil state is defined and gives the same prompt as with a
  state of type Normal. The prompt is the preamble, the state context, the general
  instructions, the Team Rules block and the label \<open>Diff:\<close> followed by the diff text
  as it is, in this order, where the state context is written exactly when the state is
  not nil and its type is not Normal, and the Team Rules block (the label, the rules as
  they are, an empty line) exactly when the rules are not empty.
\<close>

theorem buildPrompt_structure:
  "(Type st = StateNormal \<longrightarrow> buildPrompt diff rules None = buildPrompt diff rules (Some st)) \<and>
   buildPrompt diff rules gitState =
     preamble @ state_context gitState @ instructions @ team_rules rules @
     ''Diff:\<newline>'' @ diff \<and>
   (state_context gitState \<noteq> [] \<longleftrightarrow> (\<exists>s. gitState = Some s \<and> Type s \<noteq> StateNormal)) \<and>
   (team_rules rules \<noteq> [] \<longleftrightarrow> rules \<noteq> []) \<and>
   (rules \<noteq> [] \<longrightarrow> team_rules rules = ''Team Rules:\<newline>'' @ rules @ ''\<newline>\<newline>'') \<and>
   suffix (''Diff:\<newline>'' @ diff) (buildPrompt diff rules gitState)"
proof -
  have a: "Type st = StateNormal \<longrightarrow>
      buildPrompt diff rules None = buildPrompt diff rules (Some st)"
    by (simp only: buildPrompt_blocks state_context_def option.case) simp
  have b: "state_context gitState \<noteq> [] \<longleftrightarrow> (\<exists>s. gitState = Some s \<and> Type s \<noteq> StateNormal)"
    by (cases gitState) (simp_all add: state_context_def special_context_not_Nil)
  have c: "team_rules rules \<noteq> [] \<longleftrightarrow> rules \<noteq> []"
    by (simp add: team_rules_def)
  have d: "rules \<noteq> [] \<longrightarrow> team_rules rules = ''Team Rules:\<newline>'' @ rules @ ''\<newline>\<newline>''"
    by (simp add: team_rules_def)
  have e: "suffix (''Diff:\<newline>'' @ diff) (buildPrompt diff rules gitState)"
    unfolding buildPrompt_blocks suffix_def
    by (rule exI [of _ "preamble @ state_context gitState @ instructions @ team_rules rules"])
       (simp only: append_assoc)
  from a b c d e buildPrompt_blocks [of diff rules gitState] show ?thesis
    by blast
qed

definition normal_state :: GitState where
  "normal_state = \<lparr>Type = StateNormal, OriginalMessage = [], ConflictMode = False\<rparr>"

theorem buildPrompt_structure_witness:
  "Type normal_state = StateNormal \<and> ''no emoji'' \<noteq> [] \<and>
   buildPrompt ''+x'' ''no emoji'' None = buildPrompt ''+x'' ''no emoji'' (Some normal_state) \<and>
   team_rules ''no emoji'' = ''Team Rules:\<newline>no emoji\<newline>\<newline>''"
proof -
  have h: "Type normal_state = StateNormal" by (simp add: normal_state_def)
  have r: "''no emoji'' \<noteq> []" by simp
  from buildPrompt_structure [of normal_state "''+x''" "''no emoji''" None] h r
  show ?thesis by simp
qed


subsection \<open>GenerateCommitMessage\<close>

record ollamaRequest =
  Model :: string
  Prompt :: string
  Stream :: bool

record ollamaResponse =
  Response :: string
  Done :: bool

record OllamaClient =
  apiKey :: string
  baseURL :: string
  model :: string

record http_Request =
  Method :: string
  URL :: string
  Header :: "(string \<times> string) list"
  RequestBody :: string

text \<open>A received response: the numeric status code, the status text (\<open>"400 Bad Request"\<close>)
  and the bytes of the body.\<close>

record http_Response =
  StatusCode :: int
  Status :: string
  Body :: string

text \<open>\<open>Header.Set\<close> replaces the values of the key.\<close>

definition Header_Set :: "http_Request \<Rightarrow> string \<Rightarrow> string \<Rightarrow> http_Request" where
  "Header_Set req k v =
     req\<lparr>Header := filter (\<lambda>kv. fst kv \<noteq> k) (Header req) @ [(k, v)]\<rparr>"

text \<open>
  What lies outside the program: the JSON encoder and decoder, the URL parser inside
  \<open>http.NewRequest\<close>, and the network and server behind \<open>client.Do\<close>, which answers the
  exchange of each attempt (numbered from 0) with a transport error or a response. Errors
  of these are their messages.
\<close>

record network =
  json_Marshal :: "ollamaRequest \<Rightarrow> string + string"
  url_Parse :: "string \<Rightarrow> string option"
  client_Do :: "nat \<Rightarrow> http_Request \<Rightarrow> string + http_Response"
  json_Decode :: "string \<Rightarrow> string + ollamaResponse"

definition http_NewRequest ::
  "network \<Rightarrow> string \<Rightarrow> string \<Rightarrow> string \<Rightarrow> string + http_Request" where
  "http_NewRequest net method url body =
     (case url_Parse net url of
        Some e \<Rightarrow> Inl e
      | None \<Rightarrow> Inr \<lparr>Method = method, URL = url, Header = [], RequestBody = body\<rparr>)"

text \<open>The errors \<open>GenerateCommitMessage\<close> returns, one constructor for each
  \<open>fmt.Errorf\<close>, with the values the message is formatted from.\<close>

datatype ai_error =
    MarshalFailed string
  | CreateRequestFailed string
  | APICallFailed string
  | RateLimitExceeded nat string
  | RemoteError string string
  | DecodeFailed string
  | EmptyResponse
  | Unreachable

text \<open>What a run does to the world, in order: it sleeps and it sends requests (the
  notice it prints to standard error before each sleep is left out).
  A \<open>time.Duration\<close> is a number of nanoseconds.\<close>

datatype event = Sleep int | Do http_Request

definition Second :: int where "Second = 1000000000"

definition maxRetries :: nat where "maxRetries = 3"

definition baseDelay :: int where "baseDelay = 2 * Second"

text \<open>\<open>baseDelay * time.Duration(1<<uint(attempt-1))\<close>, for \<open>attempt > 0\<close>.\<close>

definition backoff :: "nat \<Rightarrow> int" where
  "backoff attempt = baseDelay * 2 ^ (attempt - 1)"

text \<open>The retry loop, from \<open>attempt\<close> on; \<open>log\<close> is what has happened so far.\<close>

function retry_loop ::
  "network \<Rightarrow> OllamaClient \<Rightarrow> string \<Rightarrow> nat \<Rightarrow> event list
     \<Rightarrow> (ai_error + string) \<times> event list" where
  "retry_loop net c jsonBody attempt log =
     (if attempt \<le> maxRetries then
        let log = (if attempt > 0 then log @ [Sleep (backoff attempt)] else log) in
        (case http_NewRequest net ''POST'' (baseURL c) jsonBody of
          Inl e \<Rightarrow> (Inl (CreateRequestFailed e), log)
        | Inr req \<Rightarrow>
            (let req = Header_Set req ''Content-Type'' ''application/json'';
                 req = Header_Set req ''Authorization'' (''Bearer '' @ apiKey c);
                 log = log @ [Do req]
             in
             (case client_Do net attempt req of
                Inl e \<Rightarrow> (Inl (APICallFailed e), log)
              | Inr resp \<Rightarrow>
                  (if StatusCode resp = 429 then
                     (if attempt = maxRetries
                      then (Inl (RateLimitExceeded maxRetries (Body resp)), log)
                      else retry_loop net c jsonBody (attempt + 1) log)
                   else if StatusCode resp \<noteq> 200
                   then (Inl (RemoteError (Status resp) (Body resp)), log)
                   else
                     (case json_Decode net (Body resp) of
                        Inl e \<Rightarrow> (Inl (DecodeFailed e), log)
                      | Inr ollamaResp \<Rightarrow>
                          (if Response ollamaResp = [] then (Inl EmptyResponse, log)
                           else (Inr (strings_TrimSpace (Response ollamaResp)), log)))))))
      else (Inl Unreachable, log))"
  by pat_completeness auto
termination
  by (relation "measure (\<lambda>(net, c, jsonBody, attempt, log). Suc maxRetries - attempt)") auto

declare retry_loop.simps [simp del]

definition GenerateCommitMessage ::
  "network \<Rightarrow> OllamaClient \<Rightarrow> string \<Rightarrow> string \<Rightarrow> GitState option
     \<Rightarrow> (ai_error + string) \<times> event list" where
  "GenerateCommitMessage net c diff rules gitState =
     (let prompt = buildPrompt diff rules gitState;
          reqBody = \<lparr>Model = model c, Prompt = prompt, Stream = False\<rparr>
      in case json_Marshal net reqBody of
           Inl e \<Rightarrow> (Inl (MarshalFailed e), [])
         | Inr jsonBody \<Rightarrow> retry_loop net c jsonBody 0 [])"

subsection \<open>The shape of a run\<close>

text \<open>The request every attempt sends, whether an exchange was answered with status 429,
  what the loop returns on the exchange that ends it, and what an attempt does to the
  world.\<close>

definition build_request :: "OllamaClient \<Rightarrow> string \<Rightarrow> http_Request" where
  "build_request c jsonBody =
     Header_Set
       (Header_Set \<lparr>Method = ''POST'', URL = baseURL c, Header = [], RequestBody = jsonBody\<rparr>
          ''Content-Type'' ''application/json'')
       ''Authorization'' (''Bearer '' @ apiKey c)"

definition rate_limited :: "string + http_Response \<Rightarrow> bool" where
  "rate_limited r = (case r of Inl e \<Rightarrow> False | Inr resp \<Rightarrow> StatusCode resp = 429)"

definition conclude :: "network \<Rightarrow> string + http_Response \<Rightarrow> ai_error + string" where
  "conclude net r =
     (case r of
        Inl e \<Rightarrow> Inl (APICallFailed e)
      | Inr resp \<Rightarrow>
          if StatusCode resp = 429 then Inl (RateLimitExceeded maxRetries (Body resp))
          else if StatusCode resp \<noteq> 200 then Inl (RemoteError (Status resp) (Body resp))
          else (case json_Decode net (Body resp) of
                  Inl e \<Rightarrow> Inl (DecodeFailed e)
                | Inr ollamaResp \<Rightarrow>
                    if Response ollamaResp = [] then Inl EmptyResponse
                    else Inr (strings_TrimSpace (Response ollamaResp))))"

definition attempt_events :: "OllamaClient \<Rightarrow> string \<Rightarrow> nat \<Rightarrow> event list" where
  "attempt_events c jsonBody attempt =
     (if attempt > 0 then [Sleep (backoff attempt)] else []) @ [Do (build_request c jsonBody)]"

lemma http_NewRequest_ok:
  "url_Parse net url = None \<Longrightarrow>
   http_NewRequest net method url body =
     Inr \<lparr>Method = method, URL = url, Header = [], RequestBody = body\<rparr>"
  by (simp add: http_NewRequest_def)

lemma retry_loop_unfold:
  assumes url: "url_Parse net (baseURL c) = None" and le: "attempt \<le> maxRetries"
  shows "retry_loop net c j attempt log =
    (if rate_limited (client_Do net attempt (build_request c j)) \<and> attempt < maxRetries
     then retry_loop net c j (Suc attempt) (log @ attempt_events c j attempt)
     else (conclude net (client_Do net attempt (build_request c j)),
           log @ attempt_events c j attempt))"
proof -
  let ?log = "(if attempt > 0 then log @ [Sleep (backoff attempt)] else log) @
      [Do (build_request c j)]"
  have l: "?log = log @ attempt_events c j attempt"
    by (simp add: attempt_events_def)
  have "retry_loop net c j attempt log =
     (case client_Do net attempt (build_request c j) of
        Inl e \<Rightarrow> (Inl (APICallFailed e), ?log)
      | Inr resp \<Rightarrow>
          (if StatusCode resp = 429 then
             (if attempt = maxRetries
              then (Inl (RateLimitExceeded maxRetries (Body resp)), ?log)
              else retry_loop net c j (attempt + 1) ?log)
           else if StatusCode resp \<noteq> 200
           then (Inl (RemoteError (Status resp) (Body resp)), ?log)
           else
             (case json_Decode net (Body resp) of
                Inl e \<Rightarrow> (Inl (DecodeFailed e), ?log)
              | Inr ollamaResp \<Rightarrow>
                  (if Response ollamaResp = [] then (Inl EmptyResponse, ?log)
                   else (Inr (strings_TrimSpace (Response ollamaResp)), ?log)))))"
    by (subst retry_loop.simps)
       (simp only: http_NewRequest_ok [OF url] le if_True sum.case Let_def build_request_def)
  also have "\<dots> =
    (if rate_limited (client_Do net attempt (build_request c j)) \<and> attempt < maxRetries
     then retry_loop net c j (Suc attempt) ?log
     else (conclude net (client_Do net attempt (build_request c j)), ?log))"
  proof (cases "client_Do net attempt (build_request c j)")
    case (Inl e)
    then show ?thesis by (simp add: conclude_def rate_limited_def)
  next
    case (Inr resp)
    show ?thesis
    proof (cases "json_Decode net (Body resp)")
      case (Inl e)
      with Inr le show ?thesis by (simp add: conclude_def rate_limited_def)
    next
      case r: (Inr ollamaResp)
      with Inr le show ?thesis by (simp add: conclude_def rate_limited_def)
    qed
  qed
  finally show ?thesis by (simp only: l)
qed

lemma retry_loop_skip:
  assumes url: "url_Parse net (baseURL c) = None"
    and "a \<le> n" and "n \<le> maxRetries"
    and "\<forall>k. a \<le> k \<and> k < n \<longrightarrow> rate_limited (client_Do net k (build_request c j))"
  shows "retry_loop net c j a log =
     retry_loop net c j n (log @ concat (map (attempt_events c j) [a..<n]))"
  using assms(2-)
proof (induction "n - a" arbitrary: a log)
  case 0
  then show ?case by simp
next
  case (Suc d)
  then have lt: "a < n" by simp
  with Suc.prems have rl: "rate_limited (client_Do net a (build_request c j))"
    and am: "a < maxRetries" by auto
  have "retry_loop net c j a log = retry_loop net c j (Suc a) (log @ attempt_events c j a)"
    using retry_loop_unfold [OF url, of a j log] rl am by simp
  also have "\<dots> = retry_loop net c j n ((log @ attempt_events c j a) @ concat (map (attempt_events c j) [Suc a..<n]))"
    using Suc.hyps(1) [of "Suc a"] Suc.hyps(2) Suc.prems lt by simp
  finally show ?case using lt by (simp add: upt_conv_Cons)
qed

lemma retry_loop_final:
  assumes url: "url_Parse net (baseURL c) = None"
    and "n \<le> maxRetries"
    and "\<forall>k<n. rate_limited (client_Do net k (build_request c j))"
    and "n < maxRetries \<longrightarrow> \<not> rate_limited (client_Do net n (build_request c j))"
  shows "retry_loop net c j 0 [] =
     (conclude net (client_Do net n (build_request c j)),
      concat (map (attempt_events c j) [0..<Suc n]))"
proof -
  have "retry_loop net c j 0 [] = retry_loop net c j n ([] @ concat (map (attempt_events c j) [0..<n]))"
    using assms by (intro retry_loop_skip) auto
  also have "\<dots> = (conclude net (client_Do net n (build_request c j)),
      concat (map (attempt_events c j) [0..<n]) @ attempt_events c j n)"
    using retry_loop_unfold [OF url, of n j] assms(2,4) by auto
  finally show ?thesis by simp
qed

text \<open>Every run ends at some attempt \<open>n \<le> 3\<close>: the first that is not rate limited, or
  the last.\<close>

lemma retry_loop_ends:
  "\<exists>n \<le> maxRetries. (\<forall>k<n. rate_limited (client_Do net k (build_request c j))) \<and>
     (n < maxRetries \<longrightarrow> \<not> rate_limited (client_Do net n (build_request c j)))"
proof -
  define P where "P n \<longleftrightarrow> \<not> rate_limited (client_Do net n (build_request c j))" for n
  have "\<exists>n \<le> maxRetries. (\<forall>k<n. \<not> P k) \<and> (n < maxRetries \<longrightarrow> P n)"
  proof (cases "\<exists>m \<le> maxRetries. P m")
    case True
    then obtain m where m: "m \<le> maxRetries" "P m" by blast
    let ?n = "LEAST n. P n"
    have 1: "P ?n" using m(2) by (rule LeastI)
    have "?n \<le> m" using m(2) by (rule Least_le)
    with m(1) have 2: "?n \<le> maxRetries" by simp
    have 3: "\<forall>k<?n. \<not> P k" using not_less_Least by blast
    from 1 2 3 show ?thesis by blast
  next
    case False
    then have "\<forall>k<maxRetries. \<not> P k" by simp
    then show ?thesis by blast
  qed
  then show ?thesis by (simp add: P_def)
qed


text \<open>The attempts of a run and the delays it slept, read off its log.\<close>

definition attempts_made :: "event list \<Rightarrow> nat" where
  "attempts_made log = length (filter (\<lambda>e. case e of Do req \<Rightarrow> True | Sleep d \<Rightarrow> False) log)"

definition delays :: "event list \<Rightarrow> int list" where
  "delays log = concat (map (\<lambda>e. case e of Do req \<Rightarrow> [] | Sleep d \<Rightarrow> [d]) log)"

subsection \<open>Concrete servers\<close>

text \<open>Bodies as a server sends them, and a decoder that knows them.\<close>

definition body_ok :: string where
  "body_ok = ''{'' @ [CHR 0x22] @ ''response'' @ [CHR 0x22] @ '':'' @ [CHR 0x22] @ ''ok'' @
     [CHR 0x22] @ '','' @ [CHR 0x22] @ ''done'' @ [CHR 0x22] @ '':true}''"

definition body_blank :: string where
  "body_blank = ''{'' @ [CHR 0x22] @ ''response'' @ [CHR 0x22] @ '':'' @ [CHR 0x22] @ '' '' @
     [CHR 0x22] @ '','' @ [CHR 0x22] @ ''done'' @ [CHR 0x22] @ '':true}''"

definition body_error :: string where
  "body_error = ''{'' @ [CHR 0x22] @ ''error'' @ [CHR 0x22] @ '':'' @ [CHR 0x22] @
     ''rate limit'' @ [CHR 0x22] @ ''}''"

definition decode_fixture :: "string \<Rightarrow> string + ollamaResponse" where
  "decode_fixture b =
     (if b = body_ok then Inr \<lparr>Response = ''ok'', Done = True\<rparr>
      else if b = body_blank then Inr \<lparr>Response = '' '', Done = True\<rparr>
      else if b = body_error then Inr \<lparr>Response = [], Done = False\<rparr>
      else Inl ''invalid character'')"

text \<open>A server that answers the attempts with the given responses, in order, and is
  gone afterwards.\<close>

definition serve :: "http_Response list \<Rightarrow> network" where
  "serve rs =
     \<lparr>json_Marshal = (\<lambda>r. Inr (Prompt r)),
      url_Parse = (\<lambda>u. None),
      client_Do = (\<lambda>k req. if k < length rs then Inr (rs ! k) else Inl ''connection refused''),
      json_Decode = decode_fixture\<rparr>"

definition too_many_requests :: http_Response where
  "too_many_requests =
     \<lparr>StatusCode = 429, Status = ''429 Too Many Requests'', Body = body_error\<rparr>"

definition bad_request :: http_Response where
  "bad_request = \<lparr>StatusCode = 400, Status = ''400 Bad Request'', Body = body_error\<rparr>"

definition ok_response :: http_Response where
  "ok_response = \<lparr>StatusCode = 200, Status = ''200 OK'', Body = body_ok\<rparr>"

definition created_response :: http_Response where
  "created_response = \<lparr>StatusCode = 201, Status = ''201 Created'', Body = body_ok\<rparr>"

definition blank_response :: http_Response where
  "blank_response = \<lparr>StatusCode = 200, Status = ''200 OK'', Body = body_blank\<rparr>"

definition test_client :: OllamaClient where
  "test_client = \<lparr>apiKey = ''test-api-key'', baseURL = ''http://127.0.0.1/api/generate'',
     model = ''gpt-oss:120b''\<rparr>"


subsection \<open>Properties of GenerateCommitMessage\<close>

lemma attempts_made_append [simp]:
  "attempts_made (xs @ ys) = attempts_made xs + attempts_made ys"
  by (simp add: attempts_made_def)

lemma delays_append [simp]: "delays (xs @ ys) = delays xs @ delays ys"
  by (simp add: delays_def)

lemma attempts_made_events:
  "attempts_made (concat (map (attempt_events c j) [a..<b])) = b - a"
  by (induction b) (simp_all add: attempts_made_def attempt_events_def Suc_diff_le)

lemma delays_events:
  "delays (concat (map (attempt_events c j) [0..<Suc n])) = map backoff [1..<Suc n]"
proof (induction n)
  case 0
  show ?case by (simp add: delays_def attempt_events_def)
next
  case (Suc n)
  have "delays (attempt_events c j (Suc n)) = [backoff (Suc n)]"
    by (simp add: delays_def attempt_events_def)
  with Suc show ?case by simp
qed

lemma backoff_values:
  "map backoff [1..<Suc n] = take n [2 * Second, 4 * Second, 8 * Second]" if "n \<le> maxRetries"
proof -
  from that have "n = 0 \<or> n = 1 \<or> n = 2 \<or> n = 3" by (auto simp: maxRetries_def)
  then show ?thesis
    by (auto simp: backoff_def baseDelay_def numeral_2_eq_2 numeral_3_eq_3)
qed


lemma retry_loop_bad_url:
  "url_Parse net (baseURL c) = Some e \<Longrightarrow>
   retry_loop net c j 0 [] = (Inl (CreateRequestFailed e), [])"
  by (subst retry_loop.simps) (simp add: http_NewRequest_def)

lemma rate_limited_iff:
  "rate_limited r \<longleftrightarrow> (\<exists>resp. r = Inr resp \<and> StatusCode resp = 429)"
  by (cases r) (simp_all add: rate_limited_def)

text \<open>
  C2: when the request can be built, a run of \<open>GenerateCommitMessage\<close> makes exactly
  \<open>n + 1\<close> attempts, where \<open>n \<le> 3\<close> is the first attempt that is not answered with status
  429, or 3 when the first three all are, so at most 4 attempts: every attempt before \<open>n\<close>
  was answered with 429 and was retried, and the run ends at attempt \<open>n\<close> with what that
  exchange gives. The delays slept, in order, are the first \<open>n\<close> of 2, 4 and 8 seconds, one
  before each attempt after the first. When all four attempts are answered with 429, the
  run returns the rate-limit error with the body of the fourth response.
\<close>

theorem GenerateCommitMessage_retry:
  assumes marshal: "json_Marshal net
      \<lparr>Model = model c, Prompt = buildPrompt diff rules gitState, Stream = False\<rparr> = Inr j"
    and url: "url_Parse net (baseURL c) = None"
  shows "\<exists>n \<le> 3.
    (\<forall>k<n. \<exists>resp. client_Do net k (build_request c j) = Inr resp \<and> StatusCode resp = 429) \<and>
    (n < 3 \<longrightarrow>
       \<not> (\<exists>resp. client_Do net n (build_request c j) = Inr resp \<and> StatusCode resp = 429)) \<and>
    GenerateCommitMessage net c diff rules gitState =
      (conclude net (client_Do net n (build_request c j)),
       concat (map (attempt_events c j) [0..<Suc n])) \<and>
    attempts_made (snd (GenerateCommitMessage net c diff rules gitState)) = Suc n \<and>
    delays (snd (GenerateCommitMessage net c diff rules gitState)) =
      take n [2 * Second, 4 * Second, 8 * Second] \<and>
    ((\<forall>k\<le>3. \<exists>resp. client_Do net k (build_request c j) = Inr resp \<and> StatusCode resp = 429)
      \<longrightarrow> n = 3 \<and>
        (\<exists>resp. client_Do net 3 (build_request c j) = Inr resp \<and>
           fst (GenerateCommitMessage net c diff rules gitState) =
             Inl (RateLimitExceeded 3 (Body resp))))"
proof -
  let ?out = "\<lambda>k. client_Do net k (build_request c j)"
  let ?G = "GenerateCommitMessage net c diff rules gitState"
  obtain n where n: "n \<le> maxRetries" "\<forall>k<n. rate_limited (?out k)"
    "n < maxRetries \<longrightarrow> \<not> rate_limited (?out n)"
    using retry_loop_ends [of net c j] by blast
  have G: "?G = (conclude net (?out n), concat (map (attempt_events c j) [0..<Suc n]))"
    using retry_loop_final [OF url n] marshal
    by (simp add: GenerateCommitMessage_def Let_def)
  have 1: "snd ?G = concat (map (attempt_events c j) [0..<Suc n])"
    by (simp add: G)
  have 2: "attempts_made (snd ?G) = Suc n"
    unfolding 1 by (simp only: attempts_made_events diff_zero)
  have 3: "delays (snd ?G) = take n [2 * Second, 4 * Second, 8 * Second]"
    unfolding 1 by (simp only: delays_events backoff_values [OF n(1)])
  have 4: "\<forall>k<n. \<exists>resp. ?out k = Inr resp \<and> StatusCode resp = 429"
    using n(2) by (simp add: rate_limited_iff)
  have 5: "n = 3 \<and> (\<exists>resp. ?out 3 = Inr resp \<and> fst ?G = Inl (RateLimitExceeded 3 (Body resp)))"
    if all: "\<forall>k\<le>3. \<exists>resp. ?out k = Inr resp \<and> StatusCode resp = 429"
  proof -
    have "rate_limited (?out n)"
      using all n(1) by (simp add: rate_limited_iff maxRetries_def)
    with n(1,3) have n3: "n = 3" by (simp add: maxRetries_def)
    from all obtain resp where r: "?out 3 = Inr resp" "StatusCode resp = 429" by blast
    then have "fst ?G = Inl (RateLimitExceeded 3 (Body resp))"
      by (simp add: G n3 conclude_def maxRetries_def)
    with n3 r(1) show ?thesis by blast
  qed
  have 6: "n < 3 \<longrightarrow> \<not> (\<exists>resp. ?out n = Inr resp \<and> StatusCode resp = 429)"
    using n(3) by (simp add: rate_limited_iff maxRetries_def)
  from n(1) have "n \<le> 3" by (simp add: maxRetries_def)
  with G 2 3 4 5 6 show ?thesis by blast
qed

lemma serve_fields:
  "url_Parse (serve rs) u = None"
  "json_Marshal (serve rs) r = Inr (Prompt r)"
  "json_Decode (serve rs) = decode_fixture"
  "client_Do (serve rs) k req = (if k < length rs then Inr (rs ! k) else Inl ''connection refused'')"
  by (simp_all add: serve_def)

theorem GenerateCommitMessage_retry_witness:
  "json_Marshal (serve [too_many_requests, too_many_requests, too_many_requests, too_many_requests])
      \<lparr>Model = model test_client, Prompt = buildPrompt ''+x'' [] None, Stream = False\<rparr>
     = Inr (buildPrompt ''+x'' [] None) \<and>
   url_Parse (serve [too_many_requests, too_many_requests, too_many_requests, too_many_requests])
     (baseURL test_client) = None \<and>
   fst (GenerateCommitMessage
          (serve [too_many_requests, too_many_requests, too_many_requests, too_many_requests])
          test_client ''+x'' [] None) = Inl (RateLimitExceeded 3 body_error) \<and>
   attempts_made (snd (GenerateCommitMessage
          (serve [too_many_requests, too_many_requests, too_many_requests, too_many_requests])
          test_client ''+x'' [] None)) = 4 \<and>
   delays (snd (GenerateCommitMessage
          (serve [too_many_requests, too_many_requests, too_many_requests, too_many_requests])
          test_client ''+x'' [] None)) = [2 * Second, 4 * Second, 8 * Second] \<and>
   json_Marshal (serve [too_many_requests, too_many_requests, ok_response])
      \<lparr>Model = model test_client, Prompt = buildPrompt ''+x'' [] None, Stream = False\<rparr>
     = Inr (buildPrompt ''+x'' [] None) \<and>
   url_Parse (serve [too_many_requests, too_many_requests, ok_response])
     (baseURL test_client) = None \<and>
   fst (GenerateCommitMessage (serve [too_many_requests, too_many_requests, ok_response])
          test_client ''+x'' [] None) = Inr ''ok'' \<and>
   attempts_made (snd (GenerateCommitMessage
          (serve [too_many_requests, too_many_requests, ok_response])
          test_client ''+x'' [] None)) = 3 \<and>
   delays (snd (GenerateCommitMessage
          (serve [too_many_requests, too_many_requests, ok_response])
          test_client ''+x'' [] None)) = [2 * Second, 4 * Second]"
proof -
  let ?net = "serve [too_many_requests, too_many_requests, too_many_requests, too_many_requests]"
  let ?j = "buildPrompt ''+x'' [] None"
  have m: "json_Marshal ?net
      \<lparr>Model = model test_client, Prompt = ?j, Stream = False\<rparr> = Inr ?j"
    by (simp add: serve_fields)
  have u: "url_Parse ?net (baseURL test_client) = None"
    by (simp add: serve_fields)
  have a: "\<forall>k\<le>3. \<exists>resp. client_Do ?net k (build_request test_client ?j) = Inr resp \<and>
      StatusCode resp = 429"
  proof (intro allI impI)
    fix k :: nat assume "k \<le> 3"
    then have "k = 0 \<or> k = 1 \<or> k = 2 \<or> k = 3" by auto
    then show "\<exists>resp. client_Do ?net k (build_request test_client ?j) = Inr resp \<and>
      StatusCode resp = 429"
      by (auto simp: serve_fields too_many_requests_def)
  qed
  have b: "client_Do ?net 3 (build_request test_client ?j) = Inr too_many_requests"
    by (simp add: serve_fields)
  from GenerateCommitMessage_retry [OF m u] a b
  have first: "fst (GenerateCommitMessage ?net test_client ''+x'' [] None) =
      Inl (RateLimitExceeded 3 body_error) \<and>
    attempts_made (snd (GenerateCommitMessage ?net test_client ''+x'' [] None)) = 4 \<and>
    delays (snd (GenerateCommitMessage ?net test_client ''+x'' [] None)) =
      [2 * Second, 4 * Second, 8 * Second]"
    by (auto simp: too_many_requests_def)
  let ?net' = "serve [too_many_requests, too_many_requests, ok_response]"
  let ?G' = "GenerateCommitMessage ?net' test_client ''+x'' [] None"
  let ?out' = "\<lambda>k. client_Do ?net' k (build_request test_client ?j)"
  have m': "json_Marshal ?net'
      \<lparr>Model = model test_client, Prompt = ?j, Stream = False\<rparr> = Inr ?j"
    by (simp add: serve_fields)
  have u': "url_Parse ?net' (baseURL test_client) = None"
    by (simp add: serve_fields)
  have o: "?out' 0 = Inr too_many_requests" "?out' 1 = Inr too_many_requests"
    "?out' 2 = Inr ok_response"
    by (simp_all add: serve_fields)
  have s: "StatusCode too_many_requests = 429" "StatusCode ok_response = 200"
    by (simp_all add: too_many_requests_def ok_response_def)
  from GenerateCommitMessage_retry [OF m' u'] obtain n where n: "n \<le> 3"
    "\<forall>k<n. \<exists>resp. ?out' k = Inr resp \<and> StatusCode resp = 429"
    "n < 3 \<longrightarrow> \<not> (\<exists>resp. ?out' n = Inr resp \<and> StatusCode resp = 429)"
    "?G' = (conclude ?net' (?out' n), concat (map (attempt_events test_client ?j) [0..<Suc n]))"
    "attempts_made (snd ?G') = Suc n"
    "delays (snd ?G') = take n [2 * Second, 4 * Second, 8 * Second]"
    by blast
  from n(1) have "n = 0 \<or> n = 1 \<or> n = 2 \<or> n = 3" by auto
  then have n2: "n = 2"
  proof (elim disjE)
    assume "n = 0" with n(3) o(1) s(1) show ?thesis by simp
  next
    assume "n = 1" with n(3) o(2) s(1) show ?thesis by simp
  next
    assume "n = 2" then show ?thesis .
  next
    assume "n = 3"
    with n(2) have "\<exists>resp. ?out' 2 = Inr resp \<and> StatusCode resp = 429" by simp
    with o(3) s(2) show ?thesis by simp
  qed
  have d: "conclude ?net' (Inr ok_response) = Inr ''ok''"
    by code_simp
  have second: "fst ?G' = Inr ''ok'' \<and> attempts_made (snd ?G') = 3 \<and>
    delays (snd ?G') = [2 * Second, 4 * Second]"
    using n(4,5,6) o(3) d unfolding n2 by simp
  from first second m u m' u' show ?thesis by blast
qed


lemma GenerateCommitMessage_final:
  assumes marshal: "json_Marshal net
      \<lparr>Model = model c, Prompt = buildPrompt diff rules gitState, Stream = False\<rparr> = Inr j"
    and url: "url_Parse net (baseURL c) = None"
    and n: "n \<le> 3"
    and before: "\<forall>k<n. \<exists>r. client_Do net k (build_request c j) = Inr r \<and> StatusCode r = 429"
    and last: "client_Do net n (build_request c j) = Inr resp" "StatusCode resp \<noteq> 429"
  shows "GenerateCommitMessage net c diff rules gitState =
     (conclude net (Inr resp), concat (map (attempt_events c j) [0..<Suc n]))"
proof -
  have 1: "n \<le> maxRetries" using n by (simp add: maxRetries_def)
  have 2: "\<forall>k<n. rate_limited (client_Do net k (build_request c j))"
    using before by (simp add: rate_limited_iff)
  have 3: "n < maxRetries \<longrightarrow> \<not> rate_limited (client_Do net n (build_request c j))"
    using last by (simp add: rate_limited_def)
  from retry_loop_final [OF url 1 2 3] marshal last(1) show ?thesis
    by (simp add: GenerateCommitMessage_def Let_def)
qed

text \<open>
  C3: when the attempts before attempt \<open>n\<close> were all answered with 429 and attempt \<open>n\<close> is
  answered with a status that is neither 429 nor in 200..299, the run returns the remote
  error with the status text and the body of that response, and attempt \<open>n\<close> is the last
  thing it does: \<open>n + 1\<close> attempts in all, and nothing after the request of attempt \<open>n\<close>.
\<close>

theorem GenerateCommitMessage_remote_error:
  assumes "json_Marshal net
      \<lparr>Model = model c, Prompt = buildPrompt diff rules gitState, Stream = False\<rparr> = Inr j"
    and "url_Parse net (baseURL c) = None"
    and "n \<le> 3"
    and "\<forall>k<n. \<exists>r. client_Do net k (build_request c j) = Inr r \<and> StatusCode r = 429"
    and "client_Do net n (build_request c j) = Inr resp"
    and "StatusCode resp \<noteq> 429"
    and "\<not> (200 \<le> StatusCode resp \<and> StatusCode resp < 300)"
  shows "fst (GenerateCommitMessage net c diff rules gitState) =
       Inl (RemoteError (Status resp) (Body resp)) \<and>
     attempts_made (snd (GenerateCommitMessage net c diff rules gitState)) = Suc n \<and>
     snd (GenerateCommitMessage net c diff rules gitState) =
       concat (map (attempt_events c j) [0..<Suc n])"
proof -
  have G: "GenerateCommitMessage net c diff rules gitState =
     (conclude net (Inr resp), concat (map (attempt_events c j) [0..<Suc n]))"
    using assms(1-6) by (rule GenerateCommitMessage_final)
  have "StatusCode resp \<noteq> 200" using assms(7) by auto
  with assms(6) have "conclude net (Inr resp) = Inl (RemoteError (Status resp) (Body resp))"
    by (simp add: conclude_def)
  moreover have "attempts_made (concat (map (attempt_events c j) [0..<Suc n])) = Suc n"
    by (simp only: attempts_made_events diff_zero)
  ultimately show ?thesis by (simp add: G)
qed

theorem GenerateCommitMessage_remote_error_witness:
  "json_Marshal (serve [too_many_requests, bad_request])
      \<lparr>Model = model test_client, Prompt = buildPrompt ''+x'' [] None, Stream = False\<rparr>
     = Inr (buildPrompt ''+x'' [] None) \<and>
   url_Parse (serve [too_many_requests, bad_request]) (baseURL test_client) = None \<and>
   client_Do (serve [too_many_requests, bad_request]) 0
      (build_request test_client (buildPrompt ''+x'' [] None)) = Inr too_many_requests \<and>
   StatusCode too_many_requests = 429 \<and>
   client_Do (serve [too_many_requests, bad_request]) 1
      (build_request test_client (buildPrompt ''+x'' [] None)) = Inr bad_request \<and>
   StatusCode bad_request = 400 \<and>
   fst (GenerateCommitMessage (serve [too_many_requests, bad_request]) test_client ''+x'' []
          None) = Inl (RemoteError ''400 Bad Request'' body_error) \<and>
   attempts_made (snd (GenerateCommitMessage (serve [too_many_requests, bad_request])
          test_client ''+x'' [] None)) = 2"
proof -
  let ?net = "serve [too_many_requests, bad_request]"
  let ?j = "buildPrompt ''+x'' [] None"
  have m: "json_Marshal ?net
      \<lparr>Model = model test_client, Prompt = ?j, Stream = False\<rparr> = Inr ?j"
    by (simp add: serve_fields)
  have u: "url_Parse ?net (baseURL test_client) = None"
    by (simp add: serve_fields)
  have d0: "client_Do ?net 0 (build_request test_client ?j) = Inr too_many_requests"
    by (simp add: serve_fields)
  have d1: "client_Do ?net 1 (build_request test_client ?j) = Inr bad_request"
    by (simp add: serve_fields)
  have s0: "StatusCode too_many_requests = 429" by (simp add: too_many_requests_def)
  have s1: "StatusCode bad_request = 400" by (simp add: bad_request_def)
  have b: "\<forall>k<1. \<exists>r. client_Do ?net k (build_request test_client ?j) = Inr r \<and>
      StatusCode r = 429"
    using d0 s0 by simp
  have "fst (GenerateCommitMessage ?net test_client ''+x'' [] None) =
       Inl (RemoteError (Status bad_request) (Body bad_request)) \<and>
     attempts_made (snd (GenerateCommitMessage ?net test_client ''+x'' [] None)) = Suc 1 \<and>
     snd (GenerateCommitMessage ?net test_client ''+x'' [] None) =
       concat (map (attempt_events test_client ?j) [0..<Suc 1])"
    by (rule GenerateCommitMessage_remote_error [OF m u _ b d1]) (simp_all add: s1)
  then have r: "fst (GenerateCommitMessage ?net test_client ''+x'' [] None) =
       Inl (RemoteError (Status bad_request) (Body bad_request))"
    and a: "attempts_made (snd (GenerateCommitMessage ?net test_client ''+x'' [] None)) = Suc 1"
    by blast+
  have "Status bad_request = ''400 Bad Request''" "Body bad_request = body_error" "Suc 1 = 2"
    by (simp_all add: bad_request_def)
  with r a have "fst (GenerateCommitMessage ?net test_client ''+x'' [] None) =
       Inl (RemoteError ''400 Bad Request'' body_error)"
    "attempts_made (snd (GenerateCommitMessage ?net test_client ''+x'' [] None)) = 2"
    by simp_all
  with m u d0 d1 s0 s1 show ?thesis by blast
qed

text \<open>
  C1 (amended): when the attempts before attempt \<open>n\<close> were all answered with 429 and
  attempt \<open>n\<close> is answered with status 200 and a body that decodes, then a generated text
  that is not empty after trimming is returned with its leading and trailing white space
  removed, and what is returned is not empty (it is the text without a run of space runes
  at each end, and neither starts nor ends with a space rune); and an empty generated text
  is reported as the empty-response error. Nothing is said of a generated text that is
  white space only.
\<close>

theorem GenerateCommitMessage_success:
  assumes "json_Marshal net
      \<lparr>Model = model c, Prompt = buildPrompt diff rules gitState, Stream = False\<rparr> = Inr j"
    and "url_Parse net (baseURL c) = None"
    and "n \<le> 3"
    and "\<forall>k<n. \<exists>r. client_Do net k (build_request c j) = Inr r \<and> StatusCode r = 429"
    and "client_Do net n (build_request c j) = Inr resp"
    and "StatusCode resp = 200"
    and "json_Decode net (Body resp) = Inr ollamaResp"
  shows "(strings_TrimSpace (Response ollamaResp) \<noteq> [] \<longrightarrow>
        fst (GenerateCommitMessage net c diff rules gitState) =
          Inr (strings_TrimSpace (Response ollamaResp)) \<and>
        (\<forall>t. fst (GenerateCommitMessage net c diff rules gitState) = Inr t \<longrightarrow> t \<noteq> [])) \<and>
     (\<exists>l r. white_space l \<and> white_space r \<and>
        Response ollamaResp = l @ strings_TrimSpace (Response ollamaResp) @ r) \<and>
     leading_space (strings_TrimSpace (Response ollamaResp)) = 0 \<and>
     trailing_space (strings_TrimSpace (Response ollamaResp)) = 0 \<and>
     (Response ollamaResp = [] \<longrightarrow>
        fst (GenerateCommitMessage net c diff rules gitState) = Inl EmptyResponse)"
proof -
  have "StatusCode resp \<noteq> 429" using assms(6) by simp
  with assms(1-5) have G: "GenerateCommitMessage net c diff rules gitState =
     (conclude net (Inr resp), concat (map (attempt_events c j) [0..<Suc n]))"
    by (rule GenerateCommitMessage_final)
  have e: "Response ollamaResp = [] \<longrightarrow>
        fst (GenerateCommitMessage net c diff rules gitState) = Inl EmptyResponse"
    using assms(6,7) by (simp add: G conclude_def)
  have t: "fst (GenerateCommitMessage net c diff rules gitState) =
          Inr (strings_TrimSpace (Response ollamaResp)) \<and>
        (\<forall>t. fst (GenerateCommitMessage net c diff rules gitState) = Inr t \<longrightarrow> t \<noteq> [])"
    if ne: "strings_TrimSpace (Response ollamaResp) \<noteq> []"
  proof -
    from ne have "Response ollamaResp \<noteq> []" using TrimSpace_Nil by auto
    then have "fst (GenerateCommitMessage net c diff rules gitState) =
          Inr (strings_TrimSpace (Response ollamaResp))"
      using assms(6,7) by (simp add: G conclude_def)
    with ne show ?thesis by simp
  qed
  from e t TrimSpace_parts [of "Response ollamaResp"] show ?thesis
    by blast
qed

theorem GenerateCommitMessage_success_witness:
  "json_Marshal (serve [too_many_requests, too_many_requests, ok_response])
      \<lparr>Model = model test_client, Prompt = buildPrompt ''+x'' [] None, Stream = False\<rparr>
     = Inr (buildPrompt ''+x'' [] None) \<and>
   url_Parse (serve [too_many_requests, too_many_requests, ok_response])
     (baseURL test_client) = None \<and>
   client_Do (serve [too_many_requests, too_many_requests, ok_response]) 2
      (build_request test_client (buildPrompt ''+x'' [] None)) = Inr ok_response \<and>
   StatusCode ok_response = 200 \<and>
   json_Decode (serve [too_many_requests, too_many_requests, ok_response]) (Body ok_response)
     = Inr \<lparr>Response = ''ok'', Done = True\<rparr> \<and>
   fst (GenerateCommitMessage (serve [too_many_requests, too_many_requests, ok_response])
          test_client ''+x'' [] None) = Inr (strings_TrimSpace ''ok'') \<and>
   strings_TrimSpace ''ok'' = ''ok''"
proof -
  let ?net = "serve [too_many_requests, too_many_requests, ok_response]"
  let ?j = "buildPrompt ''+x'' [] None"
  have m: "json_Marshal ?net
      \<lparr>Model = model test_client, Prompt = ?j, Stream = False\<rparr> = Inr ?j"
    by (simp add: serve_fields)
  have u: "url_Parse ?net (baseURL test_client) = None"
    by (simp add: serve_fields)
  have b: "\<forall>k<2. \<exists>r. client_Do ?net k (build_request test_client ?j) = Inr r \<and>
      StatusCode r = 429"
  proof (intro allI impI)
    fix k :: nat assume "k < 2"
    then have "k = 0 \<or> k = 1" by auto
    then show "\<exists>r. client_Do ?net k (build_request test_client ?j) = Inr r \<and>
      StatusCode r = 429"
      by (auto simp: serve_fields too_many_requests_def)
  qed
  have d: "client_Do ?net 2 (build_request test_client ?j) = Inr ok_response"
    by (simp add: serve_fields)
  have s: "StatusCode ok_response = 200" by (simp add: ok_response_def)
  have j: "json_Decode ?net (Body ok_response) = Inr \<lparr>Response = ''ok'', Done = True\<rparr>"
    by (simp add: serve_fields ok_response_def decode_fixture_def)
  have t: "strings_TrimSpace ''ok'' = ''ok''" by code_simp
  have "2 \<le> (3::nat)" by simp
  from GenerateCommitMessage_success [OF m u this b d s j]
  have "strings_TrimSpace (Response \<lparr>Response = ''ok'', Done = True\<rparr>) \<noteq> [] \<longrightarrow>
      fst (GenerateCommitMessage ?net test_client ''+x'' [] None) =
      Inr (strings_TrimSpace (Response \<lparr>Response = ''ok'', Done = True\<rparr>))"
    by blast
  then have "fst (GenerateCommitMessage ?net test_client ''+x'' [] None) =
      Inr (strings_TrimSpace ''ok'')"
    using t by simp
  then show ?thesis using m u d s j t by simp
qed

text \<open>
  C1, as stated, fails: success is a response with status 200, not any 2xx status. A
  response \<open>201 Created\<close> whose body decodes to the generated text \<open>ok\<close> is returned as the
  remote error.
\<close>

theorem GenerateCommitMessage_2xx_counterexample:
  "StatusCode created_response = 201 \<and>
   json_Decode (serve [created_response]) (Body created_response) =
     Inr \<lparr>Response = ''ok'', Done = True\<rparr> \<and>
   fst (GenerateCommitMessage (serve [created_response]) test_client ''+x'' [] None) =
     Inl (RemoteError ''201 Created'' body_ok)"
  by code_simp

text \<open>
  The test for an empty generated text comes before the trimming: a generated text of one
  space passes it and is returned, trimmed to the empty string, as a success.
\<close>

lemma GenerateCommitMessage_blank_response:
  "StatusCode blank_response = 200 \<and>
   json_Decode (serve [blank_response]) (Body blank_response) =
     Inr \<lparr>Response = '' '', Done = True\<rparr> \<and>
   GenerateCommitMessage (serve [blank_response]) test_client ''+x'' [] None =
     (Inr [], [Do (build_request test_client (buildPrompt ''+x'' [] None))])"
  by code_simp



section \<open>The staged diff\<close>

subsection \<open>The repository\<close>

text \<open>The status codes of go-git, and the status of one file.\<close>

datatype git_StatusCode =
    Unmodified | Untracked | Modified | Added | Deleted | Renamed | Copied
  | UpdatedButUnmerged

record FileStatus =
  Staging :: git_StatusCode
  Worktree :: git_StatusCode
  Extra :: string

text \<open>\<open>repo.Head()\<close>: a reference, no reference (an empty repository), or another failure.
  Then the tree of the commit it names: \<open>repo.CommitObject\<close> may fail, which leaves
  \<open>headTree\<close> nil, \<open>headCommit.Tree()\<close> may fail, which is an error, or there is a tree.
  Of a tree only one thing is asked: the content of the blob at a path, which is there
  when \<open>FindEntry\<close>, \<open>BlobObject\<close> and \<open>blob.Reader\<close> all succeed, and is then what the one
  \<open>reader.Read\<close> leaves in the buffer of \<open>blob.Size\<close> bytes.\<close>

datatype head_result = HeadReference | ErrReferenceNotFound | HeadError string

type_synonym tree = "string \<Rightarrow> string option"

datatype commit_result = NoCommitObject | TreeError string | CommitTree tree

text \<open>
  What \<open>GetStagedDiff\<close> sees of the world: whether the repository opens, whether it has a
  work tree, the status scan (a Go map; here the entries in the order in which the
  \<open>range\<close> loop visits them), HEAD and its tree, and the files of the working directory
  as \<open>os.ReadFile\<close> returns them (\<open>None\<close> for an error), by their path relative to it.
\<close>

record repository =
  openRepo :: "string option"
  repo_Worktree :: "string option"
  worktree_Status :: "string + (string \<times> FileStatus) list"
  repo_Head :: head_result
  head_Tree :: commit_result
  workdir :: "string \<Rightarrow> string option"

datatype git_error =
    OpenRepositoryFailed string
  | GetWorktreeFailed string
  | GetStatusFailed string
  | GetHeadFailed string
  | GetHeadTreeFailed string

subsection \<open>GetStagedDiff\<close>

text \<open>The loop \<open>for _, line := range lines\<close> that writes each line behind a sign.\<close>

definition write_lines :: "char \<Rightarrow> string \<Rightarrow> string list \<Rightarrow> string" where
  "write_lines sign diffBuilder lines =
     foldl (\<lambda>sb line. WriteString sb ([sign] @ line @ ''\<newline>'')) diffBuilder lines"

text \<open>The body of the loop over the status: what one entry adds to the builder.\<close>

definition write_file_diff ::
  "repository \<Rightarrow> tree option \<Rightarrow> string \<Rightarrow> string \<times> FileStatus \<Rightarrow> string" where
  "write_file_diff repo headTree diffBuilder entry =
     (let filePath = fst entry; fileStatus = snd entry in
      if Staging fileStatus = Unmodified \<or> Staging fileStatus = Untracked then diffBuilder
      else
        (case Staging fileStatus of
           Added \<Rightarrow>
             (let sb = WriteString diffBuilder
                         (''diff --git a/'' @ filePath @ '' b/'' @ filePath @ ''\<newline>'');
                  sb = WriteString sb ''new file mode 100644\<newline>'';
                  sb = WriteString sb (''index 0000000..'' @ Extra fileStatus @ ''\<newline>'');
                  sb = WriteString sb ''--- /dev/null\<newline>'';
                  sb = WriteString sb (''+++ b/'' @ filePath @ ''\<newline>'')
              in (case workdir repo filePath of
                    Some content \<Rightarrow>
                      write_lines CHR ''+'' sb (strings_Split content CHR ''\<newline>'')
                  | None \<Rightarrow> sb))
         | Deleted \<Rightarrow>
             (let sb = WriteString diffBuilder
                         (''diff --git a/'' @ filePath @ '' b/'' @ filePath @ ''\<newline>'');
                  sb = WriteString sb ''deleted file mode 100644\<newline>'';
                  sb = WriteString sb (''index '' @ Extra fileStatus @ ''..0000000\<newline>'');
                  sb = WriteString sb (''--- a/'' @ filePath @ ''\<newline>'');
                  sb = WriteString sb ''+++ /dev/null\<newline>''
              in (case headTree of
                    None \<Rightarrow> sb
                  | Some t \<Rightarrow>
                      (case t filePath of
                         Some content \<Rightarrow>
                           write_lines CHR ''-'' sb (strings_Split content CHR ''\<newline>'')
                       | None \<Rightarrow> sb)))
         | Modified \<Rightarrow>
             (let sb = WriteString diffBuilder
                         (''diff --git a/'' @ filePath @ '' b/'' @ filePath @ ''\<newline>'');
                  sb = WriteString sb
                         (''index '' @ Extra fileStatus @ ''..'' @ Extra fileStatus @
                          '' 100644\<newline>'');
                  sb = WriteString sb (''--- a/'' @ filePath @ ''\<newline>'');
                  sb = WriteString sb (''+++ b/'' @ filePath @ ''\<newline>'');
                  oldContent =
                    (case headTree of
                       None \<Rightarrow> []
                     | Some t \<Rightarrow> (case t filePath of Some content \<Rightarrow> content | None \<Rightarrow> []));
                  newContent =
                    (case workdir repo filePath of Some content \<Rightarrow> content | None \<Rightarrow> []);
                  oldLines = strings_Split oldContent CHR ''\<newline>'';
                  newLines = strings_Split newContent CHR ''\<newline>'';
                  sb = write_lines CHR ''-'' sb oldLines
              in write_lines CHR ''+'' sb newLines)
         | Renamed \<Rightarrow>
             (let sb = WriteString diffBuilder
                         (''diff --git a/'' @ Extra fileStatus @ '' b/'' @ filePath @
                          ''\<newline>'');
                  sb = WriteString sb (''rename from '' @ Extra fileStatus @ ''\<newline>'')
              in WriteString sb (''rename to '' @ filePath @ ''\<newline>''))
         | _ \<Rightarrow> diffBuilder))"

text \<open>\<open>GetStagedDiff\<close> up to \<open>diff := diffBuilder.String()\<close>: the text synthesized from the
  status, or the error of a step before the loop.\<close>

definition synthesize_diff :: "repository \<Rightarrow> git_error + string" where
  "synthesize_diff repo =
     (case openRepo repo of
        Some e \<Rightarrow> Inl (OpenRepositoryFailed e)
      | None \<Rightarrow>
     (case repo_Worktree repo of
        Some e \<Rightarrow> Inl (GetWorktreeFailed e)
      | None \<Rightarrow>
     (case worktree_Status repo of
        Inl e \<Rightarrow> Inl (GetStatusFailed e)
      | Inr status \<Rightarrow>
     (case repo_Head repo of
        HeadError e \<Rightarrow> Inl (GetHeadFailed e)
      | ErrReferenceNotFound \<Rightarrow> Inr (foldl (write_file_diff repo None) [] status)
      | HeadReference \<Rightarrow>
          (case head_Tree repo of
             TreeError e \<Rightarrow> Inl (GetHeadTreeFailed e)
           | NoCommitObject \<Rightarrow> Inr (foldl (write_file_diff repo None) [] status)
           | CommitTree t \<Rightarrow> Inr (foldl (write_file_diff repo (Some t)) [] status))))))"

text \<open>The end of \<open>GetStagedDiff\<close>: the cut at 10000 bytes.\<close>

definition GetStagedDiff :: "repository \<Rightarrow> git_error + string" where
  "GetStagedDiff repo =
     (case synthesize_diff repo of
        Inl e \<Rightarrow> Inl e
      | Inr diff \<Rightarrow>
          if length diff > 10000 then Inr (take 10000 diff @ ''\<newline>...[TRUNCATED]'')
          else Inr diff)"


text \<open>The lines of a text in the ordinary sense: every line ends with a newline, except
  possibly the last one, so a newline at the end of the text does not start another line,
  and the empty text has no line.\<close>

definition text_lines :: "string \<Rightarrow> string list" where
  "text_lines s =
     (let segs = strings_Split s CHR ''\<newline>'' in
      if last segs = [] then butlast segs else segs)"

subsection \<open>Properties of GetStagedDiff\<close>

lemma Split_segment:
  "sep \<notin> set s \<Longrightarrow> strings_Split (s @ sep # rest) sep = s # strings_Split rest sep"
  by (induction s) auto

lemma Split_not_Nil: "strings_Split s sep \<noteq> []"
  by (induction s) (auto split: list.splits)

lemma Split_length:
  "length (strings_Split s sep) = Suc (length (filter (\<lambda>c. c = sep) s))"
  by (induction s) (auto split: list.splits)

lemma Split_last_empty:
  "last (strings_Split s sep) = [] \<longleftrightarrow> s = [] \<or> last s = sep"
proof (induction s)
  case Nil
  show ?case by simp
next
  case (Cons c cs)
  obtain seg segs where sp: "strings_Split cs sep = seg # segs"
    using Split_not_Nil [of cs sep] by (cases "strings_Split cs sep") auto
  show ?case
  proof (cases "c = sep")
    case True
    then show ?thesis using Cons sp by auto
  next
    case False
    show ?thesis
    proof (cases "segs = []")
      case True
      then have "length (strings_Split cs sep) = 1" using sp by simp
      then have "filter (\<lambda>c. c = sep) cs = []" by (simp add: Split_length)
      then have "sep \<notin> set cs" by (auto simp: filter_empty_conv)
      then have "cs \<noteq> [] \<longrightarrow> last cs \<noteq> sep" using last_in_set by metis
      with False True sp show ?thesis by auto
    next
      case f: False
      then have "cs \<noteq> []" using sp by auto
      with False f sp Cons show ?thesis by auto
    qed
  qed
qed

lemma Split_count_lines:
  "length (strings_Split s CHR ''\<newline>'') =
     length (text_lines s) + (if s = [] \<or> last s = CHR ''\<newline>'' then 1 else 0)"
proof -
  have "strings_Split s CHR ''\<newline>'' \<noteq> []" by (rule Split_not_Nil)
  then have "length (butlast (strings_Split s CHR ''\<newline>'')) + 1 =
      length (strings_Split s CHR ''\<newline>'')"
    by (cases "strings_Split s CHR ''\<newline>''") auto
  then show ?thesis
    using Split_last_empty [of s "CHR ''\<newline>''"]
    by (auto simp: text_lines_def Let_def)
qed

lemma Split_no_sep: "l \<in> set (strings_Split s sep) \<Longrightarrow> sep \<notin> set l"
proof (induction s arbitrary: l)
  case Nil
  then show ?case by simp
next
  case (Cons c cs)
  then show ?case
    by (cases "strings_Split cs sep") (auto split: if_splits)
qed

lemma write_lines_text:
  "write_lines sign sb ls = sb @ concat (map (\<lambda>l. sign # l @ ''\<newline>'') ls)"
  unfolding write_lines_def
  by (induction ls arbitrary: sb) (simp_all add: WriteString_def)

lemma Split_signed_lines:
  assumes "\<forall>l \<in> set ls. CHR ''\<newline>'' \<notin> set l" and "sign \<noteq> CHR ''\<newline>''"
  shows "strings_Split (concat (map (\<lambda>l. sign # l @ ''\<newline>'') ls)) CHR ''\<newline>'' =
     map ((#) sign) ls @ [[]]"
  using assms(1)
proof (induction ls)
  case Nil
  show ?case by simp
next
  case (Cons l ls)
  have "CHR ''\<newline>'' \<notin> set (sign # l)" using Cons.prems assms(2) by auto
  then have "strings_Split ((sign # l) @ CHR ''\<newline>'' # concat (map (\<lambda>l. sign # l @ ''\<newline>'') ls))
      CHR ''\<newline>'' =
     (sign # l) # strings_Split (concat (map (\<lambda>l. sign # l @ ''\<newline>'') ls)) CHR ''\<newline>''"
    by (rule Split_segment)
  with Cons show ?case by simp
qed

text \<open>
  C9 (amended): for an entry staged as Added, the loop body appends a block that starts
  with the five header lines, the second being \<open>new file mode 100644\<close>. When the file can
  be read in the working directory, the header is followed by a body whose lines are, in
  order, \<open>+\<close> followed by each element of \<open>strings.Split(content, "\n")\<close>: for a content
  of \<open>N\<close> lines that is one more than \<open>N\<close> when the content is empty or ends with a newline
  (the last body line is then a bare \<open>+\<close>), and \<open>N\<close> otherwise. When the file cannot be
  read, the block is the header alone. Whether \<open>GetStagedDiff\<close> returns an error never
  depends on the files of the working directory.
\<close>

theorem Added_file_block:
  assumes "Staging fileStatus = Added"
  shows "(\<forall>content. workdir repo filePath = Some content \<longrightarrow>
       (\<exists>body.
          write_file_diff repo headTree diffBuilder (filePath, fileStatus) =
            diffBuilder @
            ''diff --git a/'' @ filePath @ '' b/'' @ filePath @ ''\<newline>'' @
            ''new file mode 100644\<newline>'' @
            ''index 0000000..'' @ Extra fileStatus @ ''\<newline>'' @
            ''--- /dev/null\<newline>'' @
            ''+++ b/'' @ filePath @ ''\<newline>'' @ body \<and>
          text_lines body = map ((#) CHR ''+'') (strings_Split content CHR ''\<newline>'') \<and>
          length (text_lines body) =
            length (text_lines content) +
            (if content = [] \<or> last content = CHR ''\<newline>'' then 1 else 0))) \<and>
     (workdir repo filePath = None \<longrightarrow>
        write_file_diff repo headTree diffBuilder (filePath, fileStatus) =
          diffBuilder @
          ''diff --git a/'' @ filePath @ '' b/'' @ filePath @ ''\<newline>'' @
          ''new file mode 100644\<newline>'' @
          ''index 0000000..'' @ Extra fileStatus @ ''\<newline>'' @
          ''--- /dev/null\<newline>'' @
          ''+++ b/'' @ filePath @ ''\<newline>'') \<and>
     isl (GetStagedDiff (repo\<lparr>workdir := w\<rparr>)) = isl (GetStagedDiff repo)"
proof (intro conjI allI impI)
  fix content
  assume c: "workdir repo filePath = Some content"
  let ?body = "concat (map (\<lambda>l. CHR ''+'' # l @ ''\<newline>'') (strings_Split content CHR ''\<newline>''))"
  have 1: "write_file_diff repo headTree diffBuilder (filePath, fileStatus) =
            diffBuilder @
            ''diff --git a/'' @ filePath @ '' b/'' @ filePath @ ''\<newline>'' @
            ''new file mode 100644\<newline>'' @
            ''index 0000000..'' @ Extra fileStatus @ ''\<newline>'' @
            ''--- /dev/null\<newline>'' @
            ''+++ b/'' @ filePath @ ''\<newline>'' @ ?body"
    using assms c
    by (simp add: write_file_diff_def Let_def WriteString_def write_lines_text)
  have "strings_Split ?body CHR ''\<newline>'' =
            map ((#) CHR ''+'') (strings_Split content CHR ''\<newline>'') @ [[]]"
    by (rule Split_signed_lines) (auto dest: Split_no_sep)
  then have 2: "text_lines ?body = map ((#) CHR ''+'') (strings_Split content CHR ''\<newline>'')"
    by (simp add: text_lines_def)
  have 3: "length (text_lines ?body) =
            length (text_lines content) +
            (if content = [] \<or> last content = CHR ''\<newline>'' then 1 else 0)"
    unfolding 2 by (simp only: length_map Split_count_lines)
  from 1 2 3 show "\<exists>body.
          write_file_diff repo headTree diffBuilder (filePath, fileStatus) =
            diffBuilder @
            ''diff --git a/'' @ filePath @ '' b/'' @ filePath @ ''\<newline>'' @
            ''new file mode 100644\<newline>'' @
            ''index 0000000..'' @ Extra fileStatus @ ''\<newline>'' @
            ''--- /dev/null\<newline>'' @
            ''+++ b/'' @ filePath @ ''\<newline>'' @ body \<and>
          text_lines body = map ((#) CHR ''+'') (strings_Split content CHR ''\<newline>'') \<and>
          length (text_lines body) =
            length (text_lines content) +
            (if content = [] \<or> last content = CHR ''\<newline>'' then 1 else 0)"
    by (intro exI [of _ ?body] conjI)
next
  assume "workdir repo filePath = None"
  with assms show "write_file_diff repo headTree diffBuilder (filePath, fileStatus) =
          diffBuilder @
          ''diff --git a/'' @ filePath @ '' b/'' @ filePath @ ''\<newline>'' @
          ''new file mode 100644\<newline>'' @
          ''index 0000000..'' @ Extra fileStatus @ ''\<newline>'' @
          ''--- /dev/null\<newline>'' @
          ''+++ b/'' @ filePath @ ''\<newline>''"
    by (simp add: write_file_diff_def Let_def WriteString_def)
next
  show "isl (GetStagedDiff (repo\<lparr>workdir := w\<rparr>)) = isl (GetStagedDiff repo)"
    by (simp add: GetStagedDiff_def synthesize_diff_def
        split: option.splits sum.splits head_result.splits commit_result.splits)
qed

text \<open>
  C4: when the synthesized text is longer than 10000 bytes, \<open>GetStagedDiff\<close> returns its
  first 10000 bytes followed by \<open>"\n...[TRUNCATED]"\<close>, which is 10000 plus the length of
  the suffix, 10015 bytes, long; a text of at most 10000 bytes is returned as it is.
  Lengths are those of Go's \<open>len\<close>: bytes.
\<close>

theorem GetStagedDiff_truncation:
  assumes "synthesize_diff repo = Inr diff"
  shows "(length diff > 10000 \<longrightarrow>
        GetStagedDiff repo = Inr (take 10000 diff @ ''\<newline>...[TRUNCATED]'') \<and>
        length (take 10000 diff @ ''\<newline>...[TRUNCATED]'') =
          10000 + length ''\<newline>...[TRUNCATED]'' \<and>
        length (take 10000 diff @ ''\<newline>...[TRUNCATED]'') = 10015 \<and>
        length (take 10000 diff) = 10000) \<and>
     (length diff \<le> 10000 \<longrightarrow> GetStagedDiff repo = Inr diff)"
  using assms by (simp add: GetStagedDiff_def)


text \<open>Concrete repositories: one with a single renamed file, one with a single added
  file.\<close>

definition rename_only :: "string \<Rightarrow> repository" where
  "rename_only path =
     \<lparr>openRepo = None, repo_Worktree = None,
      worktree_Status =
        Inr [(path, \<lparr>Staging = Renamed, Worktree = Unmodified, Extra = ''old.txt''\<rparr>)],
      repo_Head = ErrReferenceNotFound, head_Tree = NoCommitObject,
      workdir = (\<lambda>p. None)\<rparr>"

definition rename_text :: "string \<Rightarrow> string" where
  "rename_text path =
     ''diff --git a/old.txt b/'' @ path @ ''\<newline>'' @ ''rename from old.txt\<newline>'' @
     ''rename to '' @ path @ ''\<newline>''"

lemma synthesize_rename_only: "synthesize_diff (rename_only path) = Inr (rename_text path)"
  by (simp add: synthesize_diff_def rename_only_def rename_text_def write_file_diff_def
      WriteString_def Let_def)

theorem GetStagedDiff_truncation_witness:
  "synthesize_diff (rename_only (replicate 10000 CHR ''a'')) =
     Inr (rename_text (replicate 10000 CHR ''a'')) \<and>
   length (rename_text (replicate 10000 CHR ''a'')) = 20055 \<and>
   GetStagedDiff (rename_only (replicate 10000 CHR ''a'')) =
     Inr (take 10000 (rename_text (replicate 10000 CHR ''a'')) @ ''\<newline>...[TRUNCATED]'') \<and>
   take 10000 (rename_text (replicate 10000 CHR ''a'')) =
     ''diff --git a/old.txt b/'' @ replicate 9977 CHR ''a'' \<and>
   synthesize_diff (rename_only ''new.txt'') = Inr (rename_text ''new.txt'') \<and>
   length (rename_text ''new.txt'') = 69 \<and>
   GetStagedDiff (rename_only ''new.txt'') = Inr (rename_text ''new.txt'')"
proof -
  have b: "length (rename_text (replicate 10000 CHR ''a'')) = 20055"
    by (simp add: rename_text_def)
  have s: "length (rename_text ''new.txt'') = 69"
    by (simp add: rename_text_def)
  have t: "take 10000 (rename_text (replicate 10000 CHR ''a'')) =
     ''diff --git a/old.txt b/'' @ replicate 9977 CHR ''a''"
    by (simp add: rename_text_def)
  from GetStagedDiff_truncation [OF synthesize_rename_only [of "replicate 10000 CHR ''a''"]]
    GetStagedDiff_truncation [OF synthesize_rename_only [of "''new.txt''"]]
    synthesize_rename_only [of "replicate 10000 CHR ''a''"]
    synthesize_rename_only [of "''new.txt''"] b s t
  show ?thesis by simp
qed

definition added_status :: FileStatus where
  "added_status = \<lparr>Staging = Added, Worktree = Unmodified, Extra = ''e69de29''\<rparr>"

definition added_only :: "string option \<Rightarrow> repository" where
  "added_only content =
     \<lparr>openRepo = None, repo_Worktree = None,
      worktree_Status = Inr [(''a.txt'', added_status)],
      repo_Head = ErrReferenceNotFound, head_Tree = NoCommitObject,
      workdir = (\<lambda>p. if p = ''a.txt'' then content else None)\<rparr>"

theorem Added_file_block_witness:
  "Staging added_status = Added \<and>
   workdir (added_only (Some ''x\<newline>y'')) ''a.txt'' = Some ''x\<newline>y'' \<and>
   text_lines ''x\<newline>y'' = [''x'', ''y''] \<and>
   (\<exists>body.
      write_file_diff (added_only (Some ''x\<newline>y'')) None [] (''a.txt'', added_status) =
        ''diff --git a/a.txt b/a.txt\<newline>new file mode 100644\<newline>index 0000000..e69de29\<newline>--- /dev/null\<newline>+++ b/a.txt\<newline>'' @ body \<and>
      text_lines body = [''+x'', ''+y'']) \<and>
   workdir (added_only None) ''a.txt'' = None \<and>
   write_file_diff (added_only None) None [] (''a.txt'', added_status) =
     ''diff --git a/a.txt b/a.txt\<newline>new file mode 100644\<newline>index 0000000..e69de29\<newline>--- /dev/null\<newline>+++ b/a.txt\<newline>''"
proof -
  have a: "Staging added_status = Added" by (simp add: added_status_def)
  have e: "Extra added_status = ''e69de29''" by (simp add: added_status_def)
  have c: "workdir (added_only (Some ''x\<newline>y'')) ''a.txt'' = Some ''x\<newline>y''"
    by (simp add: added_only_def)
  have n: "workdir (added_only None) ''a.txt'' = None"
    by (simp add: added_only_def)
  have l: "text_lines ''x\<newline>y'' = [''x'', ''y'']" by code_simp
  from Added_file_block [OF a, of "added_only (Some ''x\<newline>y'')" "''a.txt''" None "[]"] c
  obtain body where
    w: "write_file_diff (added_only (Some ''x\<newline>y'')) None [] (''a.txt'', added_status) =
          [] @ ''diff --git a/'' @ ''a.txt'' @ '' b/'' @ ''a.txt'' @ ''\<newline>'' @
          ''new file mode 100644\<newline>'' @
          ''index 0000000..'' @ Extra added_status @ ''\<newline>'' @
          ''--- /dev/null\<newline>'' @
          ''+++ b/'' @ ''a.txt'' @ ''\<newline>'' @ body"
    and b: "text_lines body =
          map ((#) CHR ''+'') (strings_Split ''x\<newline>y'' CHR ''\<newline>'')"
    by blast
  from w have "write_file_diff (added_only (Some ''x\<newline>y'')) None [] (''a.txt'', added_status) =
        ''diff --git a/a.txt b/a.txt\<newline>new file mode 100644\<newline>index 0000000..e69de29\<newline>--- /dev/null\<newline>+++ b/a.txt\<newline>'' @ body"
    by (simp add: e)
  moreover from b have "text_lines body = [''+x'', ''+y'']"
    by simp
  ultimately have 1: "\<exists>body.
      write_file_diff (added_only (Some ''x\<newline>y'')) None [] (''a.txt'', added_status) =
        ''diff --git a/a.txt b/a.txt\<newline>new file mode 100644\<newline>index 0000000..e69de29\<newline>--- /dev/null\<newline>+++ b/a.txt\<newline>'' @ body \<and>
      text_lines body = [''+x'', ''+y'']"
    by blast
  from Added_file_block [OF a, of "added_only None" "''a.txt''" None "[]"] n
  have "write_file_diff (added_only None) None [] (''a.txt'', added_status) =
          [] @ ''diff --git a/'' @ ''a.txt'' @ '' b/'' @ ''a.txt'' @ ''\<newline>'' @
          ''new file mode 100644\<newline>'' @
          ''index 0000000..'' @ Extra added_status @ ''\<newline>'' @
          ''--- /dev/null\<newline>'' @
          ''+++ b/'' @ ''a.txt'' @ ''\<newline>''"
    by blast
  then have 2: "write_file_diff (added_only None) None [] (''a.txt'', added_status) =
     ''diff --git a/a.txt b/a.txt\<newline>new file mode 100644\<newline>index 0000000..e69de29\<newline>--- /dev/null\<newline>+++ b/a.txt\<newline>''"
    by (simp add: e)
  from a c l 1 n 2 show ?thesis by blast
qed

text \<open>
  C9, as stated, fails: a content of one line that ends with a newline gets two body
  lines, the second a bare \<open>+\<close> for the empty segment that \<open>strings.Split\<close> returns after
  the last newline; and the empty content, of no line, gets one body line.
\<close>

theorem Added_file_lines_counterexample:
  "text_lines ''x\<newline>'' = [''x''] \<and>
   write_file_diff (added_only (Some ''x\<newline>'')) None [] (''a.txt'', added_status) =
     ''diff --git a/a.txt b/a.txt\<newline>new file mode 100644\<newline>index 0000000..e69de29\<newline>--- /dev/null\<newline>+++ b/a.txt\<newline>'' @
     ''+x\<newline>+\<newline>'' \<and>
   text_lines ''+x\<newline>+\<newline>'' = [''+x'', ''+''] \<and>
   text_lines [] = [] \<and>
   write_file_diff (added_only (Some [])) None [] (''a.txt'', added_status) =
     ''diff --git a/a.txt b/a.txt\<newline>new file mode 100644\<newline>index 0000000..e69de29\<newline>--- /dev/null\<newline>+++ b/a.txt\<newline>'' @
     ''+\<newline>'' \<and>
   text_lines ''+\<newline>'' = [''+'']"
  by code_simp

end
